theory Spec2Isabelle
  imports Complex_Main "HOL-Library.Word" "HOL-Library.Sublist" "HOL-Library.Log_Nat"
begin

section \<open>JavaScript values\<close>

text \<open>
  A JavaScript string is a sequence of 16-bit code units. \<open>str\<close> embeds a literal whose
  characters are below 256, which covers every literal of \<^verbatim>\<open>EventSource.js\<close>.
\<close>

type_synonym jschar = "16 word"
type_synonym jsstring = "jschar list"

definition str :: "string \<Rightarrow> jsstring" where
  "str s = map of_char s"

text \<open>
  The result of \<^verbatim>\<open>parseInt\<close> is \<^verbatim>\<open>NaN\<close> or an integer, taken as unbounded. Every number the
  client computes with holds an integer (intervals in milliseconds, counters, status
  codes); how its arithmetic rounds is the subject of section \<open>JavaScript numbers\<close>.
\<close>

datatype jsnum = NaN | Num int

text \<open>The values \<^verbatim>\<open>JSON.parse\<close> can return. A JavaScript string is \<open>JString\<close>.\<close>

datatype json =
    JNull
  | JBool bool
  | JNumber rat
  | JString jsstring
  | JArray "json list"
  | JObject "(jsstring \<times> json) list"

text \<open>
  \<^verbatim>\<open>JSON.parse\<close> belongs to the platform, not to the repository. Every function that calls
  it takes it as a parameter \<open>JSON_parse\<close>; \<open>None\<close> stands for the \<^verbatim>\<open>SyntaxError\<close> it throws,
  which both call sites catch.

  An exception that no handler of the client catches ends the running callback. The
  state reached when it was thrown stays: \<open>Thrown e s\<close>.
\<close>

datatype js_error = ReferenceError

datatype 'a outcome = Normal (state_of: 'a) | Thrown js_error (state_of: 'a)

subsection \<open>String operations used by the decoder\<close>

text \<open>
  The character class \<^verbatim>\<open>\s\<close> of a regular expression: the white space and line terminator
  code points of ECMAScript. \<^verbatim>\<open>parseInt\<close> skips the same set.
\<close>

definition re_space :: "jschar \<Rightarrow> bool" where
  "re_space c \<longleftrightarrow>
     c \<in> {0x0009, 0x000A, 0x000B, 0x000C, 0x000D, 0x0020, 0x00A0, 0x1680,
          0x2028, 0x2029, 0x202F, 0x205F, 0x3000, 0xFEFF}
     \<or> (0x2000 \<le> c \<and> c \<le> 0x200A)"

text \<open>
  \<^verbatim>\<open>const reTrim = /^(\s|\u00A0)+|(\s|\u00A0)+$/g\<close> and \<^verbatim>\<open>s.replace(reTrim, '')\<close>: the first
  alternative matches the longest run of the class at the start, the second a run that
  reaches the end of the string; both are removed.
\<close>

definition reTrim_class :: "jschar \<Rightarrow> bool" where
  "reTrim_class c \<longleftrightarrow> re_space c \<or> c = 0x00A0"

definition replace_reTrim :: "jsstring \<Rightarrow> jsstring" where
  "replace_reTrim s = rev (dropWhile reTrim_class (rev (dropWhile reTrim_class s)))"

text \<open>\<^verbatim>\<open>s.split("\n")\<close>: never empty; the empty string gives one empty part.\<close>

fun split_nl :: "jsstring \<Rightarrow> jsstring list" where
  "split_nl [] = [[]]"
| "split_nl (c # cs) =
     (if c = 0x000A then [] # split_nl cs
      else (case split_nl cs of [] \<Rightarrow> [[c]] | p # ps \<Rightarrow> (c # p) # ps))"

text \<open>\<^verbatim>\<open>data.join('\n')\<close>\<close>

fun join_nl :: "jsstring list \<Rightarrow> jsstring" where
  "join_nl [] = []"
| "join_nl [x] = x"
| "join_nl (x # y # ys) = x @ 0x000A # join_nl (y # ys)"

text \<open>
  \<^verbatim>\<open>line.replace(/name:?\s*/, '')\<close> for a literal \<open>name\<close>: the leftmost occurrence of
  \<open>name\<close> is removed together with one colon after it, if there is one, and the white
  space that follows. The expression has no \<^verbatim>\<open>g\<close> flag, so only that match is replaced.
  \<open>after_field\<close> is what \<^verbatim>\<open>:?\s*\<close> leaves of the text behind the name.
\<close>

definition after_field :: "jsstring \<Rightarrow> jsstring" where
  "after_field s =
     dropWhile re_space (case s of [] \<Rightarrow> [] | c # cs \<Rightarrow> if c = 0x003A then cs else c # cs)"

fun replace_field :: "jsstring \<Rightarrow> jsstring \<Rightarrow> jsstring" where
  "replace_field name [] = []"
| "replace_field name (c # cs) =
     (if prefix name (c # cs) then after_field (drop (length name) (c # cs))
      else c # replace_field name cs)"

text \<open>
  \<^verbatim>\<open>parseInt(s)\<close> without a radix: leading white space is skipped, a sign is read, a prefix
  \<^verbatim>\<open>0x\<close> or \<^verbatim>\<open>0X\<close> selects radix 16, and the longest run of digits of the radix is the
  value; no digit gives \<^verbatim>\<open>NaN\<close>.
\<close>

definition digit_value :: "jschar \<Rightarrow> nat option" where
  "digit_value c =
     (if 0x0030 \<le> c \<and> c \<le> 0x0039 then Some (unat c - 0x30)
      else if 0x0061 \<le> c \<and> c \<le> 0x007A then Some (unat c - 0x61 + 10)
      else if 0x0041 \<le> c \<and> c \<le> 0x005A then Some (unat c - 0x41 + 10)
      else None)"

definition radix_digit :: "nat \<Rightarrow> jschar \<Rightarrow> bool" where
  "radix_digit R c = (case digit_value c of Some v \<Rightarrow> v < R | None \<Rightarrow> False)"

definition digits_value :: "nat \<Rightarrow> jsstring \<Rightarrow> int" where
  "digits_value R Z =
     foldl (\<lambda>acc c. case digit_value c of Some v \<Rightarrow> acc * int R + int v | None \<Rightarrow> acc) 0 Z"

definition parseInt :: "jsstring \<Rightarrow> jsnum" where
  "parseInt input =
     (let S = dropWhile re_space input;
          neg = (case S of [] \<Rightarrow> False | c # _ \<Rightarrow> c = 0x002D);
          S1 = (case S of [] \<Rightarrow> [] | c # cs \<Rightarrow> if c = 0x002B \<or> c = 0x002D then cs else c # cs);
          hex = (prefix (str ''0x'') S1 \<or> prefix (str ''0X'') S1);
          R = (if hex then 16 else 10);
          S2 = (if hex then drop 2 S1 else S1);
          Z = takeWhile (radix_digit R) S2
      in if Z = [] then NaN else Num ((if neg then - 1 else 1) * digits_value R Z))"

section \<open>JavaScript numbers\<close>

text \<open>
  A JavaScript number is an IEEE 754 double (binary64), and every arithmetic operation
  returns the double nearest to its exact result, a tie going to the neighbour whose
  significand is even. \<open>numberValue x\<close> is that double for the real number \<open>x\<close>: a
  multiple of \<open>ulp x\<close>, the distance between the doubles around \<open>x\<close>. A significand has
  53 bits; the smallest exponent is \<open>-1022\<close>, below which the doubles are \<open>2^-1074\<close> apart.
  Results of magnitude \<open>2^1024\<close> and more, which the platform turns into \<^verbatim>\<open>Infinity\<close>, have
  no counterpart here: \<open>numberValue\<close> rounds as if the exponent had no upper end, and
  the properties below keep every number far below that magnitude.
\<close>

definition roundTiesToEven :: "real \<Rightarrow> int" where
  "roundTiesToEven x =
     (let f = \<lfloor>x\<rfloor>; d = x - of_int f
      in if d < 1 / 2 then f else if 1 / 2 < d then f + 1 else if even f then f else f + 1)"

text \<open>For \<open>x > 0\<close>, the exponent \<open>e\<close> with \<open>2^e \<le> x < 2^(e+1)\<close>.\<close>

definition exponent :: "real \<Rightarrow> int" where
  "exponent x = (if 1 \<le> x then bitlen \<lfloor>x\<rfloor> - 1 else - bitlen (\<lceil>1 / x\<rceil> - 1))"

definition ulp :: "real \<Rightarrow> real" where
  "ulp x = 2 powi (max (exponent \<bar>x\<bar>) (- 1022) - 52)"

definition numberValue :: "real \<Rightarrow> real" where
  "numberValue x =
     (if x = 0 then 0 else sgn x * of_int (roundTiesToEven (\<bar>x\<bar> / ulp x)) * ulp x)"

text \<open>
  The double for an integer is an integer again (lemma \<open>of_int_js_number\<close>), so that the
  numbers of the program that hold integers are modelled as \<open>int\<close>, each result of \<^verbatim>\<open>+\<close>,
  \<^verbatim>\<open>-\<close> and \<^verbatim>\<open>*\<close> passing through \<open>js_number\<close>. Integers up to \<open>2^53\<close> in magnitude are
  doubles themselves (lemma \<open>js_number_small\<close>).
\<close>

definition js_number :: "int \<Rightarrow> int" where
  "js_number n = \<lfloor>numberValue (of_int n)\<rfloor>"

section \<open>Backoff policy (\<^verbatim>\<open>randomInterval\<close>, \<^verbatim>\<open>backoffInterval\<close>)\<close>

text \<open>
  \<^verbatim>\<open>Math.random()\<close> is the only source of randomness. Its outcome is passed in as a real
  number \<open>r\<close>; that it is a double of \<open>[0, 1)\<close> is stated, as \<open>0 \<le> r\<close>, \<open>r < 1\<close> and
  \<open>numberValue r = r\<close>, where a property needs it. Delays and attempt counts are
  JavaScript numbers holding integers.

  \<^verbatim>\<open>randomInterval = (max, min = 0) => Math.floor(Math.random() * (max + 1 - min) + min)\<close>:
  the sum, the difference, the product and the last sum are rounded one after the other;
  \<^verbatim>\<open>Math.floor\<close> is exact.
\<close>

definition randomInterval :: "real \<Rightarrow> int \<Rightarrow> int \<Rightarrow> int" where
  "randomInterval r max_v min_v =
     \<lfloor>numberValue
        (numberValue (r * of_int (js_number (js_number (max_v + 1) - min_v))) + of_int min_v)\<rfloor>"

text \<open>
  The \<^verbatim>\<open>for\<close> loop of \<^verbatim>\<open>backoffInterval\<close>, entered with \<open>index = 2\<close>, \<open>prev = 1\<close>,
  \<open>current = 2\<close>. Each round advances the pair and then tests the bound,
  \<^verbatim>\<open>delay + (current * 100) > maxDelay\<close>; \<^verbatim>\<open>break\<close> leaves the loop with the value just
  computed. The counter \<open>index\<close> stays far below \<open>2^53\<close>, where \<^verbatim>\<open>index++\<close> is exact.
\<close>

function backoff_loop :: "int \<Rightarrow> int \<Rightarrow> int \<Rightarrow> int \<Rightarrow> int \<Rightarrow> int \<Rightarrow> int" where
  "backoff_loop attempt delay maxDelay index prev current =
     (if index < attempt then
        (let next = js_number (prev + current) in
         if js_number (delay + js_number (next * 100)) > maxDelay then next
         else backoff_loop attempt delay maxDelay (index + 1) current next)
      else current)"
  by pat_completeness auto
termination
  by (relation "measure (\<lambda>(attempt, delay, maxDelay, index, prev, current). nat (attempt - index))")
     auto

declare backoff_loop.simps [simp del]

text \<open>The value of \<^verbatim>\<open>current\<close> at the \<^verbatim>\<open>return\<close> statement: the growth multiplier.\<close>

definition backoff_current :: "int \<Rightarrow> int \<Rightarrow> int \<Rightarrow> int" where
  "backoff_current attempt delay maxDelay =
     (if attempt > 1 then backoff_loop attempt delay maxDelay 2 1 2 else 1)"

text \<open>\<^verbatim>\<open>return delay + randomInterval(current * 100)\<close>\<close>

definition backoffInterval :: "real \<Rightarrow> int \<Rightarrow> int \<Rightarrow> int \<Rightarrow> int" where
  "backoffInterval r attempt delay maxDelay =
     js_number
       (delay + randomInterval r (js_number (backoff_current attempt delay maxDelay * 100)) 0)"

section \<open>Stream frame decoder\<close>

text \<open>
  The identifiers \<^verbatim>\<open>retry\<close> and \<^verbatim>\<open>interval\<close> assigned in the loop of
  \<^verbatim>\<open>xhr.onreadystatechange\<close> are declared nowhere in the module: the \<^verbatim>\<open>const interval\<close> of
  the handler lives in a later block. Both resolve to the global scope. The handler is
  written inside a class body, which is strict mode code, so assigning to a name the global
  scope does not hold throws a \<^verbatim>\<open>ReferenceError\<close>. \<open>None\<close> says that the global scope has no
  such binding.
\<close>

record globals =
  global_retry :: "jsnum option"
  global_interval :: "jsnum option"

text \<open>\<^verbatim>\<open>MessageEvent(data, origin, lastEventId)\<close>: the default \<^verbatim>\<open>null\<close> of an id is \<open>None\<close>.\<close>

record 'd message_event =
  msg_type :: jsstring
  msg_data :: 'd
  msg_lastEventId :: "jsstring option"
  msg_origin :: jsstring

definition MessageEvent ::
  "jsstring \<Rightarrow> jsstring \<Rightarrow> jsstring option \<Rightarrow> jsstring message_event" where
  "MessageEvent d origin lastId =
     \<lparr>msg_type = str ''message'', msg_data = d, msg_lastEventId = lastId, msg_origin = origin\<rparr>"

text \<open>
  What the loop over the lines reads and writes: its locals \<^verbatim>\<open>data\<close> and \<^verbatim>\<open>eventType\<close>
  (\<^verbatim>\<open>undefined\<close> is \<open>None\<close>), \<^verbatim>\<open>self.lastEventId\<close>, the global scope, and the calls
  \<^verbatim>\<open>self._emitMessage(type, message)\<close> it has made, in order. \<^verbatim>\<open>_emitMessage\<close> reads nothing
  but its arguments, so the handler publishes the recorded frames afterwards.
\<close>

record decoder =
  data :: "jsstring list"
  eventType :: "jsstring option"
  self_lastEventId :: "jsstring option"
  global_scope :: globals
  frames :: "(jsstring \<times> jsstring message_event) list"

text \<open>
  \<^verbatim>\<open>retry = parseInt(...); if (!isNaN(retry)) { interval = retry; }\<close> with \<open>v\<close> the parsed
  value.
\<close>

definition assign_retry :: "jsnum \<Rightarrow> decoder \<Rightarrow> decoder outcome" where
  "assign_retry v d =
     (case global_retry (global_scope d) of
        None \<Rightarrow> Thrown ReferenceError d
      | Some _ \<Rightarrow>
          (let d1 = d\<lparr>global_scope := (global_scope d)\<lparr>global_retry := Some v\<rparr>\<rparr> in
           if v \<noteq> NaN then
             (case global_interval (global_scope d1) of
                None \<Rightarrow> Thrown ReferenceError d1
              | Some _ \<Rightarrow>
                  Normal (d1\<lparr>global_scope := (global_scope d1)\<lparr>global_interval := Some v\<rparr>\<rparr>))
           else Normal d1))"

text \<open>
  The body of the \<^verbatim>\<open>for\<close> loop, for one element of \<^verbatim>\<open>parts\<close>. \<^verbatim>\<open>line.indexOf(p) === 0\<close>
  says that \<open>p\<close> is a prefix of the line. \<^verbatim>\<open>eventType || 'message'\<close> takes the default for
  \<^verbatim>\<open>undefined\<close> and for the empty string.
\<close>

definition process_line :: "jsstring \<Rightarrow> jsstring \<Rightarrow> decoder \<Rightarrow> decoder outcome" where
  "process_line origin part d =
     (let line = replace_reTrim part in
      if prefix (str ''event'') line then
        Normal (d\<lparr>eventType := Some (replace_field (str ''event'') line)\<rparr>)
      else if prefix (str ''retry'') line then
        assign_retry (parseInt (replace_field (str ''retry'') line)) d
      else if prefix (str ''data'') line then
        Normal (d\<lparr>data := data d @ [replace_field (str ''data'') line]\<rparr>)
      else if prefix (str ''id:'') line then
        Normal (d\<lparr>self_lastEventId := Some (replace_field (str ''id'') line)\<rparr>)
      else if prefix (str ''id'') line then
        Normal (d\<lparr>self_lastEventId := None\<rparr>)
      else if line = [] then
        (if data d \<noteq> [] then
           Normal (d\<lparr>frames := frames d @
                       [(case eventType d of
                           None \<Rightarrow> str ''message''
                         | Some t \<Rightarrow> if t = [] then str ''message'' else t,
                         MessageEvent (join_nl (data d)) origin (self_lastEventId d))],
                     data := [], eventType := None\<rparr>)
         else Normal d)
      else Normal d)"

fun process_lines :: "jsstring \<Rightarrow> jsstring list \<Rightarrow> decoder \<Rightarrow> decoder outcome" where
  "process_lines origin [] d = Normal d"
| "process_lines origin (p # ps) d =
     (case process_line origin p d of
        Normal d' \<Rightarrow> process_lines origin ps d'
      | Thrown e d' \<Rightarrow> Thrown e d')"

text \<open>
  One run of the decoder: the text behind the cursor (\<^verbatim>\<open>cache.length\<close>) is split into
  lines, the loop starts from fresh locals, and the new value of \<^verbatim>\<open>cache\<close> is the whole
  response text. The assignment to \<^verbatim>\<open>cache\<close> precedes the loop, so it also happens when
  the loop throws.
\<close>

definition fresh_decoder :: "jsstring option \<Rightarrow> globals \<Rightarrow> decoder" where
  "fresh_decoder lastId g =
     \<lparr>data = [], eventType = None, self_lastEventId = lastId, global_scope = g, frames = []\<rparr>"

definition decode ::
  "jsstring \<Rightarrow> jsstring \<Rightarrow> jsstring \<Rightarrow> jsstring option \<Rightarrow> globals
   \<Rightarrow> decoder outcome \<times> jsstring" where
  "decode origin responseText cache lastId g =
     (let parts = split_nl (drop (length cache) responseText) in
      (process_lines origin parts (fresh_decoder lastId g), responseText))"

text \<open>
  Two runs for a response that arrives as \<open>chunk1\<close> and then \<open>chunk2\<close>: the second run sees
  the whole text, the cursor and the id and globals the first run left. The result is
  every frame of the two runs, in order.
\<close>

definition decode_twice ::
  "jsstring \<Rightarrow> jsstring \<Rightarrow> jsstring \<Rightarrow> jsstring option \<Rightarrow> globals
   \<Rightarrow> (jsstring \<times> jsstring message_event) list" where
  "decode_twice origin chunk1 chunk2 lastId g =
     (let (out1, cache1) = decode origin chunk1 [] lastId g;
          d1 = state_of out1;
          (out2, cache2) = decode origin (chunk1 @ chunk2) cache1
                             (self_lastEventId d1) (global_scope d1)
      in frames d1 @ frames (state_of out2))"

definition no_globals :: globals where
  "no_globals = \<lparr>global_retry = None, global_interval = None\<rparr>"

text \<open>A global scope in which some other script has declared both names.\<close>

definition declared_globals :: globals where
  "declared_globals = \<lparr>global_retry = Some NaN, global_interval = Some NaN\<rparr>"

section \<open>Connection state machine\<close>

text \<open>
  The class \<^verbatim>\<open>EventSource\<close>: its constructor, \<^verbatim>\<open>open\<close>, \<^verbatim>\<open>close\<close>, \<^verbatim>\<open>_poll\<close> with the two
  handlers it installs, \<^verbatim>\<open>_pollAgain\<close>, \<^verbatim>\<open>_retry\<close>, \<^verbatim>\<open>_setReadyState\<close>, \<^verbatim>\<open>_emitError\<close> and
  \<^verbatim>\<open>_emitMessage\<close>. Left out are the methods that only register listeners or store request
  headers and parameters, and \<^verbatim>\<open>destroy\<close>, which is \<^verbatim>\<open>close()\<close> followed by the removal of
  the listeners.
\<close>

datatype readyState = CONNECTING | OPEN | CLOSED

text \<open>
  The listeners are outside the model. A call \<^verbatim>\<open>this.emit(name, payload)\<close> is recorded in
  \<open>emitted\<close>, in order, with the payload the source builds.
\<close>

datatype payload =
    OnOpen "jsstring option"
  | OnError int "jsstring option" json
  | OnClose bool
  | OnState readyState "readyState option"
  | OnTimeout
  | OnMessage "json message_event"

type_synonym emitted_event = "jsstring \<times> payload"

definition ON_OPEN :: jsstring where "ON_OPEN = str ''open''"
definition ON_ERROR :: jsstring where "ON_ERROR = str ''error''"
definition ON_CLOSE :: jsstring where "ON_CLOSE = str ''close''"
definition ON_STATE :: jsstring where "ON_STATE = str ''state''"
definition ON_TIMEOUT :: jsstring where "ON_TIMEOUT = str ''timeout''"

text \<open>
  The object the constructor destructures; \<open>None\<close> is a property that is absent or
  \<^verbatim>\<open>undefined\<close>. The \<^verbatim>\<open>options\<close> and \<^verbatim>\<open>params\<close> of a request go to the transport unchanged
  and are left out.
\<close>

record config =
  cfg_url :: "jsstring option"
  cfg_path :: "jsstring option"
  reconnectInterval :: "int option"
  maxInterval :: "int option"
  minInterval :: "int option"
  maxAttempts :: "int option"
  retryOnNetworkError :: "bool option"
  retryOnServerError :: "bool option"
  serverErrorCodes :: "int list option"

text \<open>
  The transport object: \<^verbatim>\<open>readyState\<close>, \<^verbatim>\<open>status\<close> and \<^verbatim>\<open>responseText\<close> of the
  \<^verbatim>\<open>XMLHttpRequest\<close>, and the variable \<^verbatim>\<open>cache\<close> that \<^verbatim>\<open>_poll\<close> declares beside it and its
  handler closes over.
\<close>

record xmlhttprequest =
  xhr_readyState :: nat
  xhr_status :: int
  xhr_responseText :: jsstring
  cache :: jsstring

text \<open>
  The client. The fields down to \<open>attempts\<close> are those of the instance (\<^verbatim>\<open>_pollTimer\<close>,
  \<^verbatim>\<open>_xhr\<close> and \<^verbatim>\<open>_attempts\<close> without the underscore). The others record what the client
  does to its surroundings: the events published, the delay of every \<^verbatim>\<open>setTimeout\<close> call
  (the call number is the timer's handle, counted from 1), the handles of the timers
  that are pending, the \<^verbatim>\<open>Last-Event-ID\<close> header of every request sent, the number of
  \<^verbatim>\<open>abort()\<close> calls, and the global scope.
\<close>

record eventsource =
  RECONNECT_INTERVAL :: int
  MAX_INTERVAL :: int
  MIN_INTERVAL :: int
  MAX_ATTEMPTS :: int
  RETRY_ON_NETWORK_ERROR :: bool
  RETRY_ON_SERVER_ERROR :: bool
  SERVER_ERROR_CODES :: "int list"
  url :: "jsstring option"
  path :: jsstring
  readyState :: "readyState option"
  lastEventId :: "jsstring option"
  pollTimer :: "nat option"
  xhr :: "xmlhttprequest option"
  attempts :: int
  emitted :: "emitted_event list"
  timeouts :: "int list"
  armed :: "nat list"
  sent :: "jsstring option list"
  aborted :: nat
  global_env :: globals

text \<open>
  \<^verbatim>\<open>v || d\<close> yields \<open>d\<close> when \<open>v\<close> is falsy: \<^verbatim>\<open>undefined\<close>, the number 0, \<^verbatim>\<open>false\<close>. An array
  is never falsy.
\<close>

definition or_number :: "int option \<Rightarrow> int \<Rightarrow> int" where
  "or_number v d = (case v of None \<Rightarrow> d | Some n \<Rightarrow> if n = 0 then d else n)"

definition or_boolean :: "bool option \<Rightarrow> bool \<Rightarrow> bool" where
  "or_boolean v d = (case v of None \<Rightarrow> d | Some b \<Rightarrow> if b then b else d)"

definition or_array :: "'a list option \<Rightarrow> 'a list \<Rightarrow> 'a list" where
  "or_array v d = (case v of None \<Rightarrow> d | Some xs \<Rightarrow> xs)"

definition constructor :: "globals \<Rightarrow> config \<Rightarrow> eventsource" where
  "constructor g c =
     \<lparr>RECONNECT_INTERVAL = or_number (reconnectInterval c) 1000,
      MAX_INTERVAL = or_number (maxInterval c) 15000,
      MIN_INTERVAL = or_number (minInterval c) 1000,
      MAX_ATTEMPTS = or_number (maxAttempts c) (- 1),
      RETRY_ON_NETWORK_ERROR = or_boolean (retryOnNetworkError c) True,
      RETRY_ON_SERVER_ERROR = or_boolean (retryOnServerError c) False,
      SERVER_ERROR_CODES = or_array (serverErrorCodes c) [502, 503, 504],
      url = cfg_url c,
      path = (case cfg_path c of None \<Rightarrow> [] | Some p \<Rightarrow> p),
      readyState = None,
      lastEventId = None,
      pollTimer = None,
      xhr = None,
      attempts = 0,
      emitted = [],
      timeouts = [],
      armed = [],
      sent = [],
      aborted = 0,
      global_env = g\<rparr>"

definition emit :: "jsstring \<Rightarrow> payload \<Rightarrow> eventsource \<Rightarrow> eventsource" where
  "emit name p s = s\<lparr>emitted := emitted s @ [(name, p)]\<rparr>"

text \<open>The template \<^verbatim>\<open>`${self.url}${self.path}`\<close>.\<close>

definition origin_of :: "eventsource \<Rightarrow> jsstring" where
  "origin_of s = (case url s of None \<Rightarrow> str ''undefined'' | Some u \<Rightarrow> u) @ path s"

definition setReadyState :: "readyState \<Rightarrow> eventsource \<Rightarrow> eventsource" where
  "setReadyState state s =
     (let prevState = readyState s in
      if prevState \<noteq> Some state
      then emit ON_STATE (OnState state prevState) (s\<lparr>readyState := Some state\<rparr>)
      else s)"

definition emitError ::
  "(jsstring \<Rightarrow> json option) \<Rightarrow> int \<Rightarrow> jsstring option \<Rightarrow> eventsource \<Rightarrow> eventsource" where
  "emitError JSON_parse status message s =
     (let d = (if status \<noteq> 0
               then (case message of
                       None \<Rightarrow> JObject []
                     | Some m \<Rightarrow> (case JSON_parse m of None \<Rightarrow> JObject [] | Some v \<Rightarrow> v))
               else JObject [])
      in emit ON_ERROR (OnError status message d) s)"

text \<open>\<^verbatim>\<open>if (message.data)\<close> holds for a string that is not empty.\<close>

definition decodedData :: "(jsstring \<Rightarrow> json option) \<Rightarrow> jsstring \<Rightarrow> json" where
  "decodedData JSON_parse d =
     (if d \<noteq> []
      then (case JSON_parse d of None \<Rightarrow> JString d | Some v \<Rightarrow> v)
      else JString d)"

text \<open>The event that \<^verbatim>\<open>_emitMessage(type, message)\<close> publishes.\<close>

definition published ::
  "(jsstring \<Rightarrow> json option) \<Rightarrow> jsstring \<times> jsstring message_event \<Rightarrow> emitted_event" where
  "published JSON_parse f =
     (fst f,
      OnMessage \<lparr>msg_type = msg_type (snd f),
                  msg_data = decodedData JSON_parse (msg_data (snd f)),
                  msg_lastEventId = msg_lastEventId (snd f),
                  msg_origin = msg_origin (snd f)\<rparr>)"

definition emitMessage ::
  "(jsstring \<Rightarrow> json option) \<Rightarrow> jsstring \<Rightarrow> jsstring message_event \<Rightarrow> eventsource
   \<Rightarrow> eventsource" where
  "emitMessage JSON_parse type message s =
     (let e = published JSON_parse (type, message) in emit (fst e) (snd e) s)"

definition pollAgain :: "int \<Rightarrow> eventsource \<Rightarrow> eventsource" where
  "pollAgain interval s =
     (let handle = Suc (length (timeouts s)) in
      s\<lparr>pollTimer := Some handle, timeouts := timeouts s @ [interval],
        armed := armed s @ [handle]\<rparr>)"

definition retry :: "real \<Rightarrow> eventsource \<Rightarrow> eventsource" where
  "retry r s =
     (let s1 = s\<lparr>attempts := attempts s + 1\<rparr>;
          interval = backoffInterval r (attempts s1) (MIN_INTERVAL s1) (MAX_INTERVAL s1)
      in pollAgain interval s1)"

definition clearInterval :: "nat option \<Rightarrow> eventsource \<Rightarrow> eventsource" where
  "clearInterval t s = (case t of None \<Rightarrow> s | Some h \<Rightarrow> s\<lparr>armed := removeAll h (armed s)\<rparr>)"

text \<open>
  \<^verbatim>\<open>this._xhr && this._xhr.abort()\<close>. An aborted request ends in the state \<^verbatim>\<open>UNSENT\<close> with
  status 0 and no text. The \<^verbatim>\<open>readystatechange\<close> that \<^verbatim>\<open>abort()\<close> may fire on its way
  comes with \<^verbatim>\<open>readyState\<close> 4 and status 0, where the handler does nothing
  (lemma \<open>onreadystatechange_done_status_0\<close>).
\<close>

definition abort :: "eventsource \<Rightarrow> eventsource" where
  "abort s =
     (case xhr s of
        None \<Rightarrow> s
      | Some x \<Rightarrow>
          s\<lparr>xhr := Some (x\<lparr>xhr_readyState := 0, xhr_status := 0, xhr_responseText := []\<rparr>),
            aborted := Suc (aborted s)\<rparr>)"

definition close_es :: "bool \<Rightarrow> eventsource \<Rightarrow> eventsource" where
  "close_es error s =
     (if readyState s = Some CLOSED then s
      else
        (let s1 = setReadyState CLOSED s;
             s2 = clearInterval (pollTimer s1) s1;
             s3 = s2\<lparr>pollTimer := None\<rparr>;
             s4 = abort s3;
             s5 = s4\<lparr>attempts := 0\<rparr>
         in emit ON_CLOSE (OnClose error) s5))"

text \<open>
  \<^verbatim>\<open>_poll\<close>. \<open>ok\<close> says whether the statements of its \<^verbatim>\<open>try\<close> block run to the end; when
  one of them throws, no request has been stored in \<^verbatim>\<open>_xhr\<close>, and the \<^verbatim>\<open>catch\<close> block
  reports status 0 with \<^verbatim>\<open>this.responseText\<close>, which the client does not have. A new
  request is in the state \<^verbatim>\<open>OPENED\<close> (1) once \<^verbatim>\<open>_poll\<close> returns, and its \<^verbatim>\<open>cache\<close> is empty.
\<close>

definition poll :: "(jsstring \<Rightarrow> json option) \<Rightarrow> bool \<Rightarrow> eventsource \<Rightarrow> eventsource" where
  "poll JSON_parse ok s =
     (if readyState s = Some CLOSED then s
      else if ok then
        s\<lparr>xhr := Some \<lparr>xhr_readyState = 1, xhr_status = 0, xhr_responseText = [], cache = []\<rparr>,
          sent := sent s @ [case lastEventId s of
                              None \<Rightarrow> None
                            | Some i \<Rightarrow> if i = [] then None else Some i]\<rparr>
      else close_es True (emitError JSON_parse 0 None s))"

definition open_es :: "(jsstring \<Rightarrow> json option) \<Rightarrow> bool \<Rightarrow> eventsource \<Rightarrow> eventsource" where
  "open_es JSON_parse ok s =
     (if (case xhr s of None \<Rightarrow> True | Some x \<Rightarrow> xhr_readyState x = 4 \<or> xhr_readyState x = 0)
         \<and> pollTimer s = None
      then poll JSON_parse ok (setReadyState CONNECTING s)
      else s)"

definition publish_frames ::
  "(jsstring \<Rightarrow> json option) \<Rightarrow> (jsstring \<times> jsstring message_event) list \<Rightarrow> eventsource
   \<Rightarrow> eventsource" where
  "publish_frames JSON_parse fs s = foldl (\<lambda>s' (t, m). emitMessage JSON_parse t m s') s fs"

text \<open>
  The block marked \<^verbatim>\<open>// on open\<close> of \<^verbatim>\<open>xhr.onreadystatechange\<close>, with its condition;
  \<open>status\<close> is \<^verbatim>\<open>this.status\<close>.
\<close>

definition on_open :: "int \<Rightarrow> eventsource \<Rightarrow> eventsource" where
  "on_open status s =
     (if readyState s = Some CONNECTING \<and> status = 200
      then (emit ON_OPEN (OnOpen (url s)) (setReadyState OPEN s))\<lparr>attempts := 0\<rparr>
      else s)"

text \<open>
  \<^verbatim>\<open>xhr.onreadystatechange\<close>, with \<open>this\<close> the request stored in \<^verbatim>\<open>_xhr\<close> and \<open>r\<close> the outcome
  of \<^verbatim>\<open>Math.random()\<close> should the handler draw one.
\<close>

definition onreadystatechange ::
  "(jsstring \<Rightarrow> json option) \<Rightarrow> real \<Rightarrow> eventsource \<Rightarrow> eventsource outcome" where
  "onreadystatechange JSON_parse r s =
     (case xhr s of
        None \<Rightarrow> Normal s
      | Some this \<Rightarrow>
          if xhr_readyState this = 3 \<or> (xhr_readyState this = 4 \<and> xhr_status this = 200) then
            (let s1 = on_open (xhr_status this) s;
                 (out, cache') = decode (origin_of s1) (xhr_responseText this) (cache this)
                                   (lastEventId s1) (global_env s1);
                 d = state_of out;
                 s2 = publish_frames JSON_parse (frames d)
                        (s1\<lparr>xhr := Some (this\<lparr>cache := cache'\<rparr>),
                            lastEventId := self_lastEventId d,
                            global_env := global_scope d\<rparr>)
             in case out of
                  Thrown e _ \<Rightarrow> Thrown e s2
                | Normal _ \<Rightarrow>
                    if xhr_readyState this = 4
                    then Normal (pollAgain (randomInterval r (RECONNECT_INTERVAL s2) 100)
                                   (emit ON_TIMEOUT OnTimeout s2))
                    else Normal s2)
          else if xhr_readyState this = 4 then
            (if xhr_status this \<noteq> 0 then
               (let s1 = emitError JSON_parse (xhr_status this) (Some (xhr_responseText this)) s in
                if RETRY_ON_SERVER_ERROR s1 \<and> xhr_status this \<in> set (SERVER_ERROR_CODES s1)
                   \<and> (MAX_ATTEMPTS s1 < 0 \<or> attempts s1 < MAX_ATTEMPTS s1)
                then Normal (retry r (setReadyState CONNECTING s1))
                else Normal (close_es True s1))
             else Normal s)
          else Normal s)"

definition onerror :: "(jsstring \<Rightarrow> json option) \<Rightarrow> real \<Rightarrow> eventsource \<Rightarrow> eventsource" where
  "onerror JSON_parse r s =
     (case xhr s of
        None \<Rightarrow> s
      | Some this \<Rightarrow>
          if xhr_status this = 0 then
            (let s1 = (if attempts s = 0
                       then emitError JSON_parse (xhr_status this) (Some (xhr_responseText this)) s
                       else s)
             in if RETRY_ON_NETWORK_ERROR s1
                   \<and> (MAX_ATTEMPTS s1 < 0 \<or> attempts s1 < MAX_ATTEMPTS s1)
                then retry r (setReadyState CONNECTING s1)
                else close_es True s1)
          else s)"

subsection \<open>What the surroundings do to the client\<close>

text \<open>The transport changes its state, status and text before it calls a handler.\<close>

definition transport_state :: "nat \<Rightarrow> int \<Rightarrow> jsstring \<Rightarrow> eventsource \<Rightarrow> eventsource" where
  "transport_state rs status text s =
     (case xhr s of
        None \<Rightarrow> s
      | Some x \<Rightarrow> s\<lparr>xhr := Some (x\<lparr>xhr_readyState := rs, xhr_status := status,
                                    xhr_responseText := text\<rparr>)\<rparr>)"

text \<open>A \<^verbatim>\<open>readystatechange\<close> event: progress (\<open>rs = 3\<close>) or completion (\<open>rs = 4\<close>).\<close>

definition receive ::
  "(jsstring \<Rightarrow> json option) \<Rightarrow> real \<Rightarrow> nat \<Rightarrow> int \<Rightarrow> jsstring \<Rightarrow> eventsource
   \<Rightarrow> eventsource outcome" where
  "receive JSON_parse r rs status text s =
     onreadystatechange JSON_parse r (transport_state rs status text s)"

text \<open>
  A network failure: the request is done with status 0 and no text, which the transport
  announces with \<^verbatim>\<open>readystatechange\<close> and then with \<^verbatim>\<open>error\<close>.
\<close>

definition network_failure ::
  "(jsstring \<Rightarrow> json option) \<Rightarrow> real \<Rightarrow> eventsource \<Rightarrow> eventsource" where
  "network_failure JSON_parse r s =
     onerror JSON_parse r (state_of (receive JSON_parse r 4 0 [] s))"

text \<open>
  The timer with handle \<open>h\<close> elapses, if it is pending, and runs \<^verbatim>\<open>this._poll()\<close>. The
  callback does not touch \<^verbatim>\<open>_pollTimer\<close>.
\<close>

definition timer_fired ::
  "(jsstring \<Rightarrow> json option) \<Rightarrow> bool \<Rightarrow> nat \<Rightarrow> eventsource \<Rightarrow> eventsource" where
  "timer_fired JSON_parse ok h s =
     (if h \<in> set (armed s)
      then poll JSON_parse ok (s\<lparr>armed := removeAll h (armed s)\<rparr>)
      else s)"

subsection \<open>Reachable states\<close>





subsection \<open>Sample inputs\<close>

definition default_config :: config where
  "default_config =
     \<lparr>cfg_url = Some (str ''http://h/''), cfg_path = Some (str ''sse''), reconnectInterval = None,
      maxInterval = None, minInterval = None, maxAttempts = None,
      retryOnNetworkError = None, retryOnServerError = None, serverErrorCodes = None\<rparr>"

text \<open>A stand-in for \<^verbatim>\<open>JSON.parse\<close> that knows one text and rejects every other.\<close>

definition sample_parse :: "jsstring \<Rightarrow> json option" where
  "sample_parse s =
     (if s = str ''{\"n\":1}'' then Some (JObject [(str ''n'', JNumber 1)]) else None)"

text \<open>A client with the default configuration, after \<^verbatim>\<open>open()\<close>.\<close>

definition sample_client :: eventsource where
  "sample_client = open_es sample_parse True (constructor no_globals default_config)"


section \<open>Properties of the rounding of numbers\<close>

lemma pow2_less_cancel: "(2::real) powi a < 2 powi b \<Longrightarrow> a < b"
  using power_int_increasing [of b a "2::real"] by (cases "a < b") auto

lemma pow2_le_cancel: "(2::real) powi a \<le> 2 powi b \<Longrightarrow> a \<le> b"
  using power_int_strict_increasing [of b a "2::real"] by (cases "a \<le> b") auto

lemma pow2_mono: "a \<le> b \<Longrightarrow> (2::real) powi a \<le> 2 powi b"
  by (rule power_int_increasing) simp_all

lemma pow2_add: "(2::real) powi (a + b) = 2 powi a * 2 powi b"
  by (rule power_int_add) simp

lemma pow2_nat: "0 \<le> k \<Longrightarrow> (2::real) powi k = of_int (2 ^ nat k)"
  by (simp add: power_int_def)

lemma exponent_bounds:
  assumes "0 < x"
  shows "2 powi exponent x \<le> x \<and> x < 2 powi (exponent x + 1)"
proof (cases "1 \<le> x")
  case True
  define n where "n = \<lfloor>x\<rfloor>"
  have n: "0 < n" using True by (simp add: n_def)
  have e: "exponent x = bitlen n - 1" using True by (simp add: exponent_def n_def)
  have b1: "1 \<le> bitlen n" using n by (simp add: bitlen_alt_def)
  from bitlen_bounds [OF n]
  have lo: "2 ^ nat (bitlen n - 1) \<le> n" and hi: "n + 1 \<le> 2 ^ nat (bitlen n)" by simp_all
  have "(2::real) powi (bitlen n - 1) = of_int (2 ^ nat (bitlen n - 1))"
    using b1 by (simp add: pow2_nat)
  also have "\<dots> \<le> of_int n" using lo by (simp only: of_int_le_iff)
  also have "\<dots> \<le> x" by (simp add: n_def)
  finally have 1: "2 powi exponent x \<le> x" by (simp add: e)
  have "x < of_int (n + 1)" by (simp add: n_def)
  also have "\<dots> \<le> of_int (2 ^ nat (bitlen n))" using hi by (simp only: of_int_le_iff)
  also have "\<dots> = (2::real) powi (bitlen n)" using b1 by (simp add: pow2_nat)
  finally have 2: "x < 2 powi (exponent x + 1)" by (simp add: e)
  from 1 2 show ?thesis ..
next
  case False
  define m where "m = \<lceil>1 / x\<rceil>"
  define k where "k = bitlen (m - 1)"
  have inv: "1 < 1 / x" using False assms by simp
  then have m: "0 < m - 1" by (simp add: m_def less_ceiling_iff)
  have e: "exponent x = - k" using False by (simp add: exponent_def m_def k_def)
  have k1: "1 \<le> k" using m by (simp add: bitlen_alt_def k_def)
  from bitlen_bounds [OF m]
  have lo: "2 ^ nat (k - 1) \<le> m - 1" and hi: "m \<le> 2 ^ nat k" by (simp_all add: k_def)
  have "1 / x \<le> of_int m" by (simp add: m_def)
  also have "\<dots> \<le> of_int (2 ^ nat k)" using hi by (simp only: of_int_le_iff)
  also have "\<dots> = (2::real) powi k" using k1 by (simp add: pow2_nat)
  finally have "1 / x \<le> 2 powi k" .
  then have "1 \<le> 2 powi k * x" using assms by (simp add: field_simps)
  then have 1: "2 powi (- k) \<le> x" by (simp add: power_int_minus field_simps)
  have "(2::real) powi (k - 1) = of_int (2 ^ nat (k - 1))" using k1 by (simp add: pow2_nat)
  also have "\<dots> \<le> of_int (m - 1)" using lo by (simp only: of_int_le_iff)
  also have "\<dots> < 1 / x" by (simp add: m_def) linarith
  finally have "x * 2 powi (k - 1) < 1" using assms by (simp add: field_simps)
  moreover have "2 powi (- k + 1) * 2 powi (k - 1) = (1::real)"
    using pow2_add [of "- k + 1" "k - 1"] by simp
  ultimately have "x * 2 powi (k - 1) < 2 powi (- k + 1) * 2 powi (k - 1)" by simp
  then have 2: "x < 2 powi (- k + 1)" by (simp only: mult_less_cancel_right_pos zero_less_power_int zero_less_numeral)
  from 1 2 show ?thesis by (simp add: e)
qed

lemma exponent_unique:
  assumes "2 powi k \<le> x" "x < 2 powi (k + 1)"
  shows "exponent x = k"
proof -
  have "(0::real) < 2 powi k" by simp
  with assms have x: "0 < x" by linarith
  from exponent_bounds [OF x] assms
  have "(2::real) powi k < 2 powi (exponent x + 1)" "(2::real) powi exponent x < 2 powi (k + 1)"
    by linarith+
  then have "k < exponent x + 1" "exponent x < k + 1" by (auto dest: pow2_less_cancel)
  then show ?thesis by simp
qed

lemma exponent_mono:
  assumes "0 < x" "x \<le> y"
  shows "exponent x \<le> exponent y"
proof -
  from assms have y: "0 < y" by simp
  from exponent_bounds [OF assms(1)] exponent_bounds [OF y] assms(2)
  have "(2::real) powi exponent x < 2 powi (exponent y + 1)" by linarith
  then have "exponent x < exponent y + 1" by (rule pow2_less_cancel)
  then show ?thesis by simp
qed

lemma roundTiesToEven_of_int [simp]: "roundTiesToEven (of_int k) = k"
  by (simp add: roundTiesToEven_def)

lemma roundTiesToEven_bounds: "\<lfloor>x\<rfloor> \<le> roundTiesToEven x \<and> roundTiesToEven x \<le> \<lfloor>x\<rfloor> + 1"
  by (simp add: roundTiesToEven_def Let_def)

lemma roundTiesToEven_mono:
  assumes "x \<le> y"
  shows "roundTiesToEven x \<le> roundTiesToEven y"
proof (cases "\<lfloor>x\<rfloor> = \<lfloor>y\<rfloor>")
  case True
  with assms show ?thesis by (auto simp add: roundTiesToEven_def Let_def)
next
  case False
  with assms have "\<lfloor>x\<rfloor> + 1 \<le> \<lfloor>y\<rfloor>" using floor_mono [OF assms] by simp
  with roundTiesToEven_bounds [of x] roundTiesToEven_bounds [of y] show ?thesis by linarith
qed

lemma roundTiesToEven_le: "x \<le> of_int k \<Longrightarrow> roundTiesToEven x \<le> k"
  using roundTiesToEven_mono [of x "of_int k"] by simp

lemma roundTiesToEven_ge: "of_int k \<le> x \<Longrightarrow> k \<le> roundTiesToEven x"
  using roundTiesToEven_mono [of "of_int k" x] by simp

lemma roundTiesToEven_less: "x < of_int k - 1 / 2 \<Longrightarrow> roundTiesToEven x < k"
proof -
  assume a: "x < of_int k - 1 / 2"
  then have "x < of_int k" by simp
  then have f: "\<lfloor>x\<rfloor> \<le> k - 1" by (simp add: floor_less_iff)
  show ?thesis
  proof (cases "\<lfloor>x\<rfloor> = k - 1")
    case True
    with a have "x - of_int \<lfloor>x\<rfloor> < 1 / 2" by simp
    then have "roundTiesToEven x = \<lfloor>x\<rfloor>" by (simp add: roundTiesToEven_def Let_def)
    with True show ?thesis by simp
  next
    case False
    with f roundTiesToEven_bounds [of x] show ?thesis by linarith
  qed
qed

lemma ulp_pos [simp]: "0 < ulp x"
  by (simp add: ulp_def)

lemma ulp_minus [simp]: "ulp (- x) = ulp x"
  by (simp add: ulp_def)

lemma numberValue_0 [simp]: "numberValue 0 = 0"
  by (simp add: numberValue_def)

lemma numberValue_minus: "numberValue (- x) = - numberValue x"
  by (simp add: numberValue_def sgn_if)

lemma numberValue_pos: "0 < x \<Longrightarrow> numberValue x = of_int (roundTiesToEven (x / ulp x)) * ulp x"
  by (simp add: numberValue_def)

lemma pow2_52: "2 ^ 52 * (2::real) powi (s - 52) = 2 powi s"
proof -
  have "(2::real) powi s = 2 powi (52 + (s - 52))" by simp
  also have "\<dots> = 2 powi 52 * 2 powi (s - 52)" by (rule pow2_add)
  finally show ?thesis by simp
qed

lemma pow2_53: "2 ^ 53 * (2::real) powi (s - 52) = 2 powi (s + 1)"
proof -
  have "s + 1 = 53 + (s - 52)" by simp
  then have "(2::real) powi (s + 1) = 2 powi (53 + (s - 52))" by (rule arg_cong)
  also have "\<dots> = 2 powi 53 * 2 powi (s - 52)" by (rule pow2_add)
  finally show ?thesis by simp
qed

lemma ulp_nonneg [simp]: "0 \<le> ulp x"
  by (simp add: ulp_def)

lemma ulp_neq_0 [simp]: "ulp x \<noteq> 0"
  by (simp add: ulp_def)

lemma scaled_less:
  assumes "ulp x = 2 powi (s - 52)" "x < 2 powi (s + 1)"
  shows "x / ulp x < 2 ^ 53"
proof -
  from assms have "x < 2 ^ 53 * ulp x" by (simp only: pow2_53)
  then show ?thesis by (simp add: pos_divide_less_eq)
qed

lemma scaled_ge:
  assumes "ulp x = 2 powi (s - 52)" "2 powi s \<le> x"
  shows "2 ^ 52 \<le> x / ulp x"
proof -
  from assms have "2 ^ 52 * ulp x \<le> x" by (simp only: pow2_52)
  then show ?thesis by (simp add: pos_le_divide_eq)
qed

text \<open>The unit in the last place of a normal and of a subnormal number.\<close>

lemma ulp_normal:
  assumes "- 1022 \<le> s" "2 powi s \<le> x" "x < 2 powi (s + 1)"
  shows "ulp x = 2 powi (s - 52)"
proof -
  have "(0::real) < 2 powi s" by simp
  with assms have "0 < x" by linarith
  then have "\<bar>x\<bar> = x" by simp
  with exponent_unique [OF assms(2,3)] assms(1) show ?thesis by (simp add: ulp_def)
qed

lemma ulp_subnormal:
  assumes "0 < x" "x < 2 powi (- 1022)"
  shows "ulp x = 2 powi (- 1074)"
proof -
  from exponent_bounds [OF assms(1)] assms(2)
  have "(2::real) powi exponent x < 2 powi (- 1022)" by linarith
  then have "exponent x < - 1022" by (rule pow2_less_cancel)
  with assms(1) show ?thesis by (simp add: ulp_def)
qed

lemma ulp_cases:
  assumes "0 < x"
  obtains s where "- 1022 \<le> s" "ulp x = 2 powi (s - 52)" "x < 2 powi (s + 1)"
    "s = - 1022 \<or> 2 powi s \<le> x"
proof -
  define s where "s = max (exponent x) (- 1022)"
  have 1: "- 1022 \<le> s" by (simp add: s_def)
  have 2: "ulp x = 2 powi (s - 52)" using assms by (simp add: ulp_def s_def)
  have "exponent x + 1 \<le> s + 1" by (simp add: s_def)
  then have "(2::real) powi (exponent x + 1) \<le> 2 powi (s + 1)" by (rule pow2_mono)
  with exponent_bounds [OF assms] have 3: "x < 2 powi (s + 1)" by linarith
  have 4: "s = - 1022 \<or> 2 powi s \<le> x"
    using exponent_bounds [OF assms] by (auto simp add: s_def max_def)
  from 1 2 3 4 that show thesis by blast
qed

lemma numberValue_nonneg: "0 \<le> x \<Longrightarrow> 0 \<le> numberValue x"
proof (cases "x = 0")
  case False
  assume "0 \<le> x"
  with False have x: "0 < x" by simp
  then have "0 \<le> x / ulp x" by simp
  then have "0 \<le> roundTiesToEven (x / ulp x)"
    using roundTiesToEven_ge [of 0 "x / ulp x"] by simp
  with x show ?thesis by (simp add: numberValue_pos)
qed simp

lemma numberValue_exact:
  assumes "0 < x" "x / ulp x = of_int k"
  shows "numberValue x = x"
proof -
  from assms have "numberValue x = of_int k * ulp x" by (simp add: numberValue_pos)
  also have "\<dots> = x / ulp x * ulp x" by (simp only: assms(2))
  also have "\<dots> = x" by simp
  finally show ?thesis .
qed

lemma numberValue_representable:
  assumes s: "- 1022 \<le> s" and k: "0 < k" "k < 2 ^ 53" and n: "s = - 1022 \<or> 2 ^ 52 \<le> k"
  shows "numberValue (of_int k * 2 powi (s - 52)) = of_int k * 2 powi (s - 52)"
proof -
  define u :: real where "u = 2 powi (s - 52)"
  define y where "y = of_int k * u"
  have u: "0 < u" by (simp add: u_def)
  with k have y: "0 < y" by (simp add: y_def)
  have "of_int k < (2::real) ^ 53" using k(2) by (metis of_int_less_iff of_int_numeral of_int_power)
  then have "y < 2 ^ 53 * u" using u by (simp add: y_def)
  then have hi: "y < 2 powi (s + 1)" by (simp only: u_def pow2_53)
  have "ulp y = u"
  proof (cases "2 ^ 52 \<le> k")
    case True
    then have "(2::real) ^ 52 \<le> of_int k" by (metis of_int_le_iff of_int_numeral of_int_power)
    then have "2 ^ 52 * u \<le> y" using u by (simp add: y_def)
    then have "2 powi s \<le> y" by (simp only: u_def pow2_52)
    from ulp_normal [OF s this hi] show ?thesis by (simp add: u_def)
  next
    case False
    with n have s': "s = - 1022" by simp
    from False have "of_int k < (2::real) ^ 52" by (metis not_le of_int_less_iff of_int_numeral of_int_power)
    then have "y < 2 ^ 52 * u" using u by (simp add: y_def)
    then have "y < 2 powi s" by (simp only: u_def pow2_52)
    with ulp_subnormal [OF y] s' show ?thesis by (simp add: u_def)
  qed
  then have "y / ulp y = of_int k" using u by (simp add: y_def)
  from numberValue_exact [OF y this] show ?thesis by (simp add: y_def u_def)
qed

lemma numberValue_idem_pos:
  assumes "0 < x"
  shows "numberValue (numberValue x) = numberValue x"
proof -
  from ulp_cases [OF assms] obtain s where s: "- 1022 \<le> s" and u: "ulp x = 2 powi (s - 52)"
    and hi: "x < 2 powi (s + 1)" and lo: "s = - 1022 \<or> 2 powi s \<le> x" by blast
  define k where "k = roundTiesToEven (x / ulp x)"
  have nv: "numberValue x = of_int k * 2 powi (s - 52)"
    using assms by (simp add: numberValue_pos k_def u)
  have "x / ulp x \<le> 2 ^ 53"
    using scaled_less [OF u hi] by simp
  then have k53: "k \<le> 2 ^ 53" using roundTiesToEven_le [of "x / ulp x" "2 ^ 53"] by (simp add: k_def)
  have "0 \<le> x / ulp x" using assms by simp
  then have k0: "0 \<le> k" using roundTiesToEven_ge [of 0 "x / ulp x"] by (simp add: k_def)
  have klo: "2 ^ 52 \<le> k" if "2 powi s \<le> x"
  proof -
    from that have "2 ^ 52 \<le> x / ulp x" by (rule scaled_ge [OF u])
    then show ?thesis using roundTiesToEven_ge [of "2 ^ 52" "x / ulp x"] by (simp add: k_def)
  qed
  consider "k = 0" | "k = 2 ^ 53" | "0 < k" "k < 2 ^ 53" using k0 k53 by linarith
  then show ?thesis
  proof cases
    case 1
    then show ?thesis by (simp add: nv)
  next
    case 2
    have "s + 1 - 52 = 1 + (s - 52)" by simp
    then have "(2::real) powi (s + 1 - 52) = 2 powi (1 + (s - 52))" by (rule arg_cong)
    also have "\<dots> = 2 powi 1 * 2 powi (s - 52)" by (rule pow2_add)
    finally have "numberValue x = of_int (2 ^ 52) * 2 powi (s + 1 - 52)"
      by (simp add: nv 2)
    moreover have "numberValue (of_int (2 ^ 52) * 2 powi (s + 1 - 52))
                   = of_int (2 ^ 52) * 2 powi (s + 1 - 52)"
      using s by (intro numberValue_representable) simp_all
    ultimately show ?thesis by simp
  next
    case 3
    from lo klo have "s = - 1022 \<or> 2 ^ 52 \<le> k" by blast
    from numberValue_representable [OF s 3 this] show ?thesis by (simp add: nv)
  qed
qed

lemma numberValue_idem [simp]: "numberValue (numberValue x) = numberValue x"
proof -
  consider "0 < x" | "x = 0" | "0 < - x" by linarith
  then show ?thesis
  proof cases
    case 1
    then show ?thesis by (rule numberValue_idem_pos)
  next
    case 2
    then show ?thesis by simp
  next
    case 3
    from numberValue_idem_pos [OF 3] show ?thesis by (simp add: numberValue_minus)
  qed
qed

lemma numberValue_mono_pos:
  assumes "0 < x" "x \<le> y"
  shows "numberValue x \<le> numberValue y"
proof -
  from assms have y: "0 < y" by simp
  from ulp_cases [OF assms(1)] obtain s where s: "- 1022 \<le> s" and u: "ulp x = 2 powi (s - 52)"
    and hi: "x < 2 powi (s + 1)" and lo: "s = - 1022 \<or> 2 powi s \<le> x" by blast
  from ulp_cases [OF y] obtain t where t: "- 1022 \<le> t" and v: "ulp y = 2 powi (t - 52)"
    and hi': "y < 2 powi (t + 1)" and lo': "t = - 1022 \<or> 2 powi t \<le> y" by blast
  have st: "s \<le> t"
  proof (rule ccontr)
    assume "\<not> s \<le> t"
    then have ts: "t + 1 \<le> s" by simp
    with t lo have "2 powi s \<le> x" by auto
    moreover from ts have "(2::real) powi (t + 1) \<le> 2 powi s" by (rule pow2_mono)
    ultimately show False using hi' assms(2) by linarith
  qed
  show ?thesis
  proof (cases "s = t")
    case True
    have "x / ulp x \<le> y / ulp x" using assms(2) by (simp add: divide_right_mono)
    then have "roundTiesToEven (x / ulp x) \<le> roundTiesToEven (y / ulp x)"
      by (rule roundTiesToEven_mono)
    then have "of_int (roundTiesToEven (x / ulp x)) * ulp x
               \<le> of_int (roundTiesToEven (y / ulp x)) * ulp x" by simp
    moreover have "ulp y = ulp x" by (simp add: u v True)
    ultimately show ?thesis using assms(1) y by (simp add: numberValue_pos)
  next
    case False
    with st have lt: "s + 1 \<le> t" by simp
    with s lo' have ylo: "2 powi t \<le> y" by auto
    have "x / ulp x \<le> 2 ^ 53"
      using scaled_less [OF u hi] by simp
    then have "roundTiesToEven (x / ulp x) \<le> 2 ^ 53"
      using roundTiesToEven_le [of "x / ulp x" "2 ^ 53"] by simp
    then have "of_int (roundTiesToEven (x / ulp x)) \<le> (2::real) ^ 53"
      by (metis of_int_le_iff of_int_numeral of_int_power)
    then have "numberValue x \<le> 2 ^ 53 * ulp x" using assms(1) by (simp add: numberValue_pos)
    then have 1: "numberValue x \<le> 2 powi (s + 1)" by (simp only: u pow2_53)
    have 2: "(2::real) powi (s + 1) \<le> 2 powi t" using lt by (rule pow2_mono)
    from ylo have "2 ^ 52 \<le> y / ulp y" by (rule scaled_ge [OF v])
    then have "2 ^ 52 \<le> roundTiesToEven (y / ulp y)"
      using roundTiesToEven_ge [of "2 ^ 52" "y / ulp y"] by simp
    then have "(2::real) ^ 52 \<le> of_int (roundTiesToEven (y / ulp y))"
      by (metis of_int_le_iff of_int_numeral of_int_power)
    then have "2 ^ 52 * ulp y \<le> numberValue y" using y by (simp add: numberValue_pos)
    then have 3: "2 powi t \<le> numberValue y" by (simp only: v pow2_52)
    from 1 2 3 show ?thesis by linarith
  qed
qed

lemma numberValue_mono:
  assumes "x \<le> y"
  shows "numberValue x \<le> numberValue y"
proof -
  consider "0 < x" | "x \<le> 0" "0 \<le> y" | "y < 0" using assms by linarith
  then show ?thesis
  proof cases
    case 1
    then show ?thesis using assms by (rule numberValue_mono_pos)
  next
    case 2
    from 2(1) have "0 \<le> numberValue (- x)" by (intro numberValue_nonneg) simp
    then have "numberValue x \<le> 0" by (simp add: numberValue_minus)
    with numberValue_nonneg [OF 2(2)] show ?thesis by linarith
  next
    case 3
    then have "0 < - y" "- y \<le> - x" using assms by simp_all
    from numberValue_mono_pos [OF this] show ?thesis by (simp add: numberValue_minus)
  qed
qed
lemma numberValue_of_nat_small:
  assumes "0 < n" "n \<le> 2 ^ 53"
  shows "numberValue (of_int n) = of_int n"
proof (cases "n = 2 ^ 53")
  case True
  have "numberValue (of_int (2 ^ 52) * 2 powi (53 - 52)) = of_int (2 ^ 52) * 2 powi (53 - 52)"
    by (intro numberValue_representable) simp_all
  with True show ?thesis by simp
next
  case False
  define x :: real where "x = of_int n"
  have x: "0 < x" using assms by (simp add: x_def)
  have x1: "1 \<le> x" using assms by (simp add: x_def)
  from False assms have "n < 2 ^ 53" by simp
  then have x53: "x < 2 powi 53" by (simp add: x_def)
  define e where "e = exponent x"
  from exponent_bounds [OF x] have lo: "2 powi e \<le> x" and hi: "x < 2 powi (e + 1)"
    by (simp_all add: e_def)
  from hi x1 have "(2::real) powi 0 < 2 powi (e + 1)" by simp
  then have e0: "0 \<le> e" using pow2_less_cancel [of 0 "e + 1"] by simp
  from lo x53 have "(2::real) powi e < 2 powi 53" by linarith
  then have e52: "e \<le> 52" using pow2_less_cancel [of e 53] by simp
  from e0 have u: "ulp x = 2 powi (e - 52)" using ulp_normal [OF _ lo hi] by simp
  have "(2::real) powi (e - 52) * 2 powi (52 - e) = 1" using pow2_add [of "e - 52" "52 - e"] by simp
  then have "x / ulp x = x * 2 powi (52 - e)" by (simp add: u field_simps)
  also have "\<dots> = of_int (n * 2 ^ nat (52 - e))" using e52 by (simp add: x_def pow2_nat)
  finally have "x / ulp x = of_int (n * 2 ^ nat (52 - e))" .
  from numberValue_exact [OF x this] show ?thesis by (simp add: x_def)
qed

lemma numberValue_of_int_small:
  assumes "\<bar>n\<bar> \<le> 2 ^ 53"
  shows "numberValue (of_int n) = of_int n"
proof -
  consider "0 < n" | "n = 0" | "0 < - n" by linarith
  then show ?thesis
  proof cases
    case 1
    with assms show ?thesis by (intro numberValue_of_nat_small) simp_all
  next
    case 2
    then show ?thesis by simp
  next
    case 3
    with assms have "numberValue (of_int (- n)) = of_int (- n)"
      by (intro numberValue_of_nat_small) simp_all
    then show ?thesis by (simp add: numberValue_minus)
  qed
qed

lemma numberValue_of_nat_integral:
  assumes "0 < n"
  shows "\<exists>k. numberValue (of_int n) = of_int k"
proof (cases "n \<le> 2 ^ 53")
  case True
  with assms numberValue_of_nat_small [of n] show ?thesis by blast
next
  case False
  define x :: real where "x = of_int n"
  have x: "0 < x" using assms by (simp add: x_def)
  from False have "2 ^ 53 \<le> n" by simp
  then have "(2::real) powi 53 \<le> x" by (simp add: x_def)
  with exponent_bounds [OF x] have "(2::real) powi 53 < 2 powi (exponent x + 1)" by linarith
  then have e: "52 \<le> exponent x" using pow2_less_cancel [of 53 "exponent x + 1"] by simp
  then have "ulp x = 2 powi (exponent x - 52)" using x by (simp add: ulp_def)
  also have "\<dots> = of_int (2 ^ nat (exponent x - 52))" using e by (simp add: pow2_nat)
  finally have "numberValue x
                = of_int (roundTiesToEven (x / ulp x) * 2 ^ nat (exponent x - 52))"
    using x by (simp add: numberValue_pos)
  then show ?thesis unfolding x_def by blast
qed

lemma numberValue_of_int_integral: "\<exists>k. numberValue (of_int n) = of_int k"
proof -
  consider "0 < n" | "n = 0" | "0 < - n" by linarith
  then show ?thesis
  proof cases
    case 1
    then show ?thesis by (rule numberValue_of_nat_integral)
  next
    case 2
    then have "numberValue (of_int n) = of_int 0" by simp
    then show ?thesis by blast
  next
    case 3
    from numberValue_of_nat_integral [OF 3] obtain k where "numberValue (of_int (- n)) = of_int k"
      by blast
    then have "numberValue (of_int n) = of_int (- k)" by (simp add: numberValue_minus)
    then show ?thesis by blast
  qed
qed

lemma of_int_js_number: "of_int (js_number n) = numberValue (of_int n)"
proof -
  from numberValue_of_int_integral [of n] obtain k where "numberValue (of_int n) = of_int k"
    by blast
  then show ?thesis by (simp add: js_number_def)
qed

lemma js_number_small: "\<bar>n\<bar> \<le> 2 ^ 53 \<Longrightarrow> js_number n = n"
  by (simp add: js_number_def numberValue_of_int_small)

lemma js_number_idem [simp]: "js_number (js_number n) = js_number n"
  by (simp add: js_number_def [of "js_number n"] of_int_js_number) (simp add: js_number_def)

lemma js_number_mono: "m \<le> n \<Longrightarrow> js_number m \<le> js_number n"
  by (simp add: js_number_def floor_mono numberValue_mono)

lemma js_number_nonneg: "0 \<le> n \<Longrightarrow> 0 \<le> js_number n"
  using js_number_mono [of 0 n] by (simp add: js_number_small)

text \<open>The largest double below 1 is \<open>1 - 2^-53\<close>.\<close>

lemma double_below_1:
  assumes "0 \<le> r" "r < 1" "numberValue r = r"
  shows "r \<le> 1 - 1 / 2 ^ 53"
proof (cases "r < 1 / 2")
  case True
  then show ?thesis by simp
next
  case False
  then have lo: "2 powi (- 1) \<le> r" by simp
  have hi: "r < 2 powi (- 1 + 1)" using assms(2) by simp
  define N :: int where "N = 2 ^ 53"
  have N: "of_int N = (2::real) ^ 53" by (simp add: N_def)
  have Npos: "(0::real) < of_int N" by (simp add: N_def)
  have "ulp r = 2 powi (- 1 - 52)" by (rule ulp_normal [OF _ lo hi]) simp
  also have "\<dots> = 1 / 2 ^ 53" by (simp add: power_int_minus_divide)
  finally have u: "ulp r = 1 / of_int N" by (simp only: N)
  define k where "k = roundTiesToEven (r / ulp r)"
  have r: "0 < r" using False by simp
  have "r = of_int k * ulp r" using assms(3) r by (simp add: numberValue_pos k_def)
  then have rk: "r = of_int k / of_int N" by (simp only: u) simp
  with assms(2) Npos have "of_int k < (of_int N :: real)" by (simp add: pos_divide_less_eq)
  then have "k \<le> N - 1" by simp
  then have "of_int k \<le> (of_int (N - 1) :: real)" by (simp only: of_int_le_iff)
  then have "of_int k / of_int N \<le> (of_int N - 1) / (of_int N :: real)"
    using Npos by (simp add: divide_right_mono)
  also have "\<dots> = 1 - 1 / of_int N" using Npos by (simp add: diff_divide_distrib)
  finally have "of_int k / of_int N \<le> 1 - 1 / (of_int N :: real)" .
  then have "r \<le> 1 - 1 / of_int N" by (simp only: rk [symmetric])
  then show ?thesis by (simp only: N)
qed

lemma randomInterval_100:
  assumes "0 \<le> r" "r < 1" "numberValue r = r"
  shows "0 \<le> randomInterval r 100 0 \<and> randomInterval r 100 0 \<le> 100"
proof -
  have ri: "randomInterval r 100 0 = \<lfloor>numberValue (r * 101)\<rfloor>"
    by (simp add: randomInterval_def js_number_small)
  have "0 \<le> numberValue (r * 101)" using assms(1) by (intro numberValue_nonneg) simp
  then have 1: "0 \<le> randomInterval r 100 0" by (simp add: ri)
  have "r * 101 \<le> 101 - 101 / 2 ^ 53" using double_below_1 [OF assms] by simp
  then have "numberValue (r * 101) \<le> numberValue (101 - 101 / 2 ^ 53)" by (rule numberValue_mono)
  also have "numberValue (101 - 101 / 2 ^ 53) = 101 - 1 / 2 ^ 46" by code_simp
  finally have "numberValue (r * 101) < 101" by simp
  then have 2: "randomInterval r 100 0 \<le> 100" by (simp add: ri floor_le_iff)
  from 1 2 show ?thesis ..
qed

section \<open>Properties of the backoff policy\<close>

lemma randomInterval_nonneg:
  assumes "0 \<le> r" "0 \<le> m"
  shows "0 \<le> randomInterval r m 0"
proof -
  have "0 \<le> js_number (js_number (m + 1))"
    using assms(2) by (intro js_number_nonneg) simp
  then have "0 \<le> r * of_int (js_number (js_number (m + 1) - 0))" using assms(1) by simp
  then have "0 \<le> numberValue (r * of_int (js_number (js_number (m + 1) - 0)))"
    by (rule numberValue_nonneg)
  then have "0 \<le> numberValue (numberValue (r * of_int (js_number (js_number (m + 1) - 0))) + 0)"
    by (intro numberValue_nonneg) simp
  then show ?thesis by (simp add: randomInterval_def)
qed

lemma backoff_loop_ge:
  "0 < prev \<Longrightarrow> 0 < current \<Longrightarrow> js_number current = current \<Longrightarrow>
   current \<le> backoff_loop attempt delay maxDelay index prev current"
proof (induction attempt delay maxDelay index prev current rule: backoff_loop.induct)
  case (1 attempt delay maxDelay index prev current)
  define n where "n = js_number (prev + current)"
  have "js_number current \<le> n" unfolding n_def using "1.prems"(1) by (intro js_number_mono) simp
  with "1.prems" have n: "current \<le> n" "0 < n" "js_number n = n" by (simp_all add: n_def)
  show ?case
  proof (cases "index < attempt")
    case False
    then show ?thesis by (simp add: backoff_loop.simps)
  next
    case True
    show ?thesis
    proof (cases "js_number (delay + js_number (n * 100)) > maxDelay")
      case True
      with \<open>index < attempt\<close> n show ?thesis
        by (simp add: backoff_loop.simps [of attempt delay maxDelay index prev current] Let_def
            n_def [symmetric])
    next
      case False
      with \<open>index < attempt\<close> "1.prems" n "1.IH" [of n]
      have "n \<le> backoff_loop attempt delay maxDelay (index + 1) current n"
        by (simp add: n_def)
      with False \<open>index < attempt\<close> n show ?thesis
        by (simp add: backoff_loop.simps [of attempt delay maxDelay index prev current] Let_def
            n_def [symmetric])
    qed
  qed
qed

lemma backoff_loop_mono:
  "0 < prev \<Longrightarrow> 0 < current \<Longrightarrow> js_number current = current \<Longrightarrow> a \<le> b \<Longrightarrow>
   backoff_loop a delay maxDelay index prev current
   \<le> backoff_loop b delay maxDelay index prev current"
proof (induction a delay maxDelay index prev current rule: backoff_loop.induct)
  case (1 a delay maxDelay index prev current)
  define n where "n = js_number (prev + current)"
  have "js_number current \<le> n" unfolding n_def using "1.prems"(1) by (intro js_number_mono) simp
  with "1.prems" have n: "current \<le> n" "0 < n" "js_number n = n" by (simp_all add: n_def)
  show ?case
  proof (cases "index < a")
    case False
    then have "backoff_loop a delay maxDelay index prev current = current"
      by (simp add: backoff_loop.simps)
    with "1.prems" show ?thesis by (simp add: backoff_loop_ge)
  next
    case True
    with "1.prems" have ib: "index < b" by simp
    show ?thesis
    proof (cases "js_number (delay + js_number (n * 100)) > maxDelay")
      case True
      with \<open>index < a\<close> ib show ?thesis
        by (simp add: backoff_loop.simps [of _ delay maxDelay index prev current] Let_def
            n_def [symmetric])
    next
      case False
      with \<open>index < a\<close> "1.prems" n "1.IH" [of n]
      have "backoff_loop a delay maxDelay (index + 1) current n
            \<le> backoff_loop b delay maxDelay (index + 1) current n"
        by (simp add: n_def)
      with False \<open>index < a\<close> ib show ?thesis
        by (simp add: backoff_loop.simps [of _ delay maxDelay index prev current] Let_def
            n_def [symmetric])
    qed
  qed
qed

text \<open>
  Once a round of the loop has left it through \<^verbatim>\<open>break\<close>, every larger attempt count
  leaves it in the same round.
\<close>

lemma backoff_loop_stable:
  "index < a \<Longrightarrow> a \<le> b \<Longrightarrow>
   maxDelay
   < js_number (delay + js_number (backoff_loop a delay maxDelay index prev current * 100)) \<Longrightarrow>
   backoff_loop b delay maxDelay index prev current
   = backoff_loop a delay maxDelay index prev current"
proof (induction a delay maxDelay index prev current rule: backoff_loop.induct)
  case (1 a delay maxDelay index prev current)
  define n where "n = js_number (prev + current)"
  from "1.prems" have ib: "index < b" by simp
  show ?case
  proof (cases "js_number (delay + js_number (n * 100)) > maxDelay")
    case True
    with "1.prems"(1) ib show ?thesis
      by (simp add: backoff_loop.simps [of _ delay maxDelay index prev current] Let_def
          n_def [symmetric])
  next
    case False
    have unf: "backoff_loop c delay maxDelay index prev current
               = backoff_loop c delay maxDelay (index + 1) current n"
      if "index < c" for c
      using that False
      by (simp add: backoff_loop.simps [of c delay maxDelay index prev current] Let_def
          n_def [symmetric])
    show ?thesis
    proof (cases "index + 1 < a")
      case True
      with "1.IH" [of n] "1.prems" False unf [of a]
      have "backoff_loop b delay maxDelay (index + 1) current n
            = backoff_loop a delay maxDelay (index + 1) current n"
        by (simp add: n_def)
      with unf [of a] unf [of b] "1.prems"(1) ib show ?thesis by simp
    next
      case False
      then have "backoff_loop a delay maxDelay (index + 1) current n = n"
        by (simp add: backoff_loop.simps [of a delay maxDelay "index + 1"])
      with unf [of a] "1.prems" \<open>\<not> maxDelay < js_number (delay + js_number (n * 100))\<close>
      show ?thesis by simp
    qed
  qed
qed

lemma backoff_current_pos: "0 < backoff_current a delay maxDelay"
  using backoff_loop_ge [of 1 2 a delay maxDelay 2]
  by (simp add: backoff_current_def js_number_small)

lemma backoff_current_mono:
  "a \<le> b \<Longrightarrow> backoff_current a delay maxDelay \<le> backoff_current b delay maxDelay"
  using backoff_loop_mono [of 1 2 a b delay maxDelay 2] backoff_loop_ge [of 1 2 b delay maxDelay 2]
  by (auto simp add: backoff_current_def js_number_small)

lemma backoff_current_stable:
  "3 \<le> a \<Longrightarrow> a \<le> b \<Longrightarrow>
   maxDelay < js_number (delay + js_number (backoff_current a delay maxDelay * 100)) \<Longrightarrow>
   backoff_current b delay maxDelay = backoff_current a delay maxDelay"
  using backoff_loop_stable [of 2 a b maxDelay delay 1 2]
  by (simp add: backoff_current_def)

lemma backoffInterval_ge:
  assumes "\<bar>delay\<bar> \<le> 2 ^ 52" "0 \<le> r"
  shows "delay \<le> backoffInterval r a delay maxDelay"
proof -
  have "0 \<le> js_number (backoff_current a delay maxDelay * 100)"
    using backoff_current_pos [of a delay maxDelay] by (intro js_number_nonneg) simp
  from randomInterval_nonneg [OF assms(2) this]
  have "js_number delay
        \<le> js_number (delay + randomInterval r (js_number (backoff_current a delay maxDelay * 100)) 0)"
    by (intro js_number_mono) simp
  moreover have "js_number delay = delay" using assms(1) by (intro js_number_small) simp
  ultimately show ?thesis by (simp add: backoffInterval_def)
qed

lemma backoffInterval_first:
  assumes "a \<le> 1" "\<bar>delay\<bar> \<le> 2 ^ 52" "0 \<le> r" "r < 1" "numberValue r = r"
  shows "backoffInterval r a delay maxDelay = delay + randomInterval r 100 0"
proof -
  from randomInterval_100 [OF assms(3-5)] assms(2)
  have "\<bar>delay + randomInterval r 100 0\<bar> \<le> 2 ^ 53" by (simp add: abs_le_iff)
  then have "js_number (delay + randomInterval r 100 0) = delay + randomInterval r 100 0"
    by (rule js_number_small)
  with assms(1) show ?thesis
    by (simp add: backoffInterval_def backoff_current_def js_number_small)
qed

text \<open>
  Claim C5, as stated, fails in two places. The claim says that from the attempt at which
  \<open>min + growth * 100 > max\<close> the ceiling no longer moves. The bound is tested only inside
  the loop, which the first two attempts never enter: with \<open>min = max = 1000\<close> the ceiling
  of attempt 1 is already above \<open>max\<close>, and attempt 2 still uses the larger multiplier 2.
  The claim also says that for attempt 1 the delay is \<open>min\<close> plus a value of \<open>[0, 100]\<close>.
  The sum is a double: with \<open>min = 2^59\<close>, where the doubles are 128 apart, and the outcome
  \<open>127/128\<close> of the random source, the jitter 100 is rounded up and the delay is
  \<open>min + 128\<close>.
\<close>

theorem backoff_ceiling_stabilises_counterexample:
  "(1::int) \<le> 1 \<and> (1000::int) \<le> 1000 \<and> (1::int) \<le> 2
   \<and> 1000 < 1000 + backoff_current 1 1000 1000 * 100
   \<and> 1000 < js_number (1000 + js_number (backoff_current 1 1000 1000 * 100))
   \<and> backoff_current 2 1000 1000 \<noteq> backoff_current 1 1000 1000
   \<and> (2::int) ^ 59 \<le> 2 ^ 60 \<and> (0::real) \<le> 127 / 128 \<and> (127 / 128 :: real) < 1
   \<and> numberValue (127 / 128) = 127 / 128
   \<and> backoffInterval (127 / 128) 1 (2 ^ 59) (2 ^ 60) = 2 ^ 59 + 128"
  by code_simp

text \<open>
  Claim C5, amended. Let the bounds be integers of magnitude at most \<open>2^52\<close> with
  \<open>min \<le> max\<close>, and \<open>r\<close> an outcome of the random source, a double of \<open>[0, 1)\<close>. For every
  attempt count \<open>a \<ge> 1\<close> the delay is at least \<open>min\<close>; the jitter ceiling
  \<open>min + growth * 100\<close> is non-decreasing in the attempt count; and from any attempt
  \<open>a \<ge> 3\<close> at which the test of the loop, \<open>min + growth * 100 > max\<close>, holds, the multiplier
  stays the same for all later attempts (attempts 1 and 2 use the multipliers 1 and 2
  whatever the bounds). For an attempt count of at most 1 the delay is \<open>min\<close> plus the
  value of \<^verbatim>\<open>randomInterval(100)\<close>, an integer of \<open>[0, 100]\<close>.
\<close>

theorem backoffInterval_bounds:
  "(1 \<le> a \<and> delay \<le> maxDelay \<and> \<bar>delay\<bar> \<le> 2 ^ 52 \<and> \<bar>maxDelay\<bar> \<le> 2 ^ 52
      \<and> 0 \<le> r \<and> r < 1 \<and> numberValue r = r \<longrightarrow>
        delay \<le> backoffInterval r a delay maxDelay
        \<and> (a \<le> b \<longrightarrow>
              delay + backoff_current a delay maxDelay * 100
              \<le> delay + backoff_current b delay maxDelay * 100)
        \<and> (3 \<le> a \<and> a \<le> b
              \<and> maxDelay < js_number (delay + js_number (backoff_current a delay maxDelay * 100))
            \<longrightarrow> backoff_current b delay maxDelay = backoff_current a delay maxDelay))
   \<and> (a \<le> 1 \<and> delay \<le> maxDelay \<and> \<bar>delay\<bar> \<le> 2 ^ 52 \<and> \<bar>maxDelay\<bar> \<le> 2 ^ 52
      \<and> 0 \<le> r \<and> r < 1 \<and> numberValue r = r \<longrightarrow>
        backoffInterval r a delay maxDelay = delay + randomInterval r 100 0
        \<and> 0 \<le> randomInterval r 100 0 \<and> randomInterval r 100 0 \<le> 100)"
proof (intro conjI impI)
  assume "1 \<le> a \<and> delay \<le> maxDelay \<and> \<bar>delay\<bar> \<le> 2 ^ 52 \<and> \<bar>maxDelay\<bar> \<le> 2 ^ 52
      \<and> 0 \<le> r \<and> r < 1 \<and> numberValue r = r"
  then show "delay \<le> backoffInterval r a delay maxDelay" by (simp add: backoffInterval_ge)
next
  assume "a \<le> b"
  then show "delay + backoff_current a delay maxDelay * 100
             \<le> delay + backoff_current b delay maxDelay * 100"
    using backoff_current_mono [of a b delay maxDelay] by simp
next
  assume "3 \<le> a \<and> a \<le> b
          \<and> maxDelay < js_number (delay + js_number (backoff_current a delay maxDelay * 100))"
  then show "backoff_current b delay maxDelay = backoff_current a delay maxDelay"
    by (simp add: backoff_current_stable)
next
  assume h: "a \<le> 1 \<and> delay \<le> maxDelay \<and> \<bar>delay\<bar> \<le> 2 ^ 52 \<and> \<bar>maxDelay\<bar> \<le> 2 ^ 52
      \<and> 0 \<le> r \<and> r < 1 \<and> numberValue r = r"
  then show "backoffInterval r a delay maxDelay = delay + randomInterval r 100 0"
    by (simp add: backoffInterval_first)
  from h randomInterval_100 [of r]
  show "0 \<le> randomInterval r 100 0" "randomInterval r 100 0 \<le> 100" by simp_all
qed

text \<open>
  Witness for C5: the default bounds 1000 and 15000 with \<open>r = 1/2\<close>; attempt 11 is the first
  whose ceiling (15400) exceeds the maximum, attempt 1 is the first of a burst.
\<close>

theorem backoffInterval_bounds_witness:
  "(1::int) \<le> 11 \<and> (1000::int) \<le> 15000 \<and> \<bar>1000::int\<bar> \<le> 2 ^ 52 \<and> \<bar>15000::int\<bar> \<le> 2 ^ 52
   \<and> (0::real) \<le> 1 / 2 \<and> (1 / 2 :: real) < 1 \<and> numberValue (1 / 2) = 1 / 2
   \<and> (3::int) \<le> 11 \<and> (11::int) \<le> 20
   \<and> 15000 < js_number (1000 + js_number (backoff_current 11 1000 15000 * 100))
   \<and> 1000 \<le> backoffInterval (1 / 2) 11 1000 15000
   \<and> 1000 + backoff_current 11 1000 15000 * 100 \<le> 1000 + backoff_current 20 1000 15000 * 100
   \<and> backoff_current 20 1000 15000 = backoff_current 11 1000 15000
   \<and> (1::int) \<le> 1
   \<and> backoffInterval (1 / 2) 1 1000 15000 = 1000 + randomInterval (1 / 2) 100 0
   \<and> 0 \<le> randomInterval (1 / 2) 100 0 \<and> randomInterval (1 / 2) 100 0 \<le> 100"
proof -
  have h: "numberValue (1 / 2) = 1 / 2"
    "15000 < js_number (1000 + js_number (backoff_current 11 1000 15000 * 100))"
    by code_simp+
  from h backoffInterval_bounds [where a = 11 and b = 20 and delay = 1000 and maxDelay = 15000
      and r = "1 / 2"]
    backoffInterval_bounds [where a = 1 and b = 1 and delay = 1000 and maxDelay = 15000
      and r = "1 / 2"]
  show ?thesis by simp
qed

section \<open>Properties of the stream frame decoder\<close>

subsection \<open>Classification of a line\<close>

lemma replace_field_prefix:
  "prefix name l \<Longrightarrow> replace_field name l = after_field (drop (length name) l)"
  by (cases l) (simp_all add: after_field_def)

lemma prefix_head: "prefix (a # as) l \<Longrightarrow> \<exists>t. l = a # t"
  by (cases l) simp_all

lemma length_literals:
  "length (str ''event'') = 5" "length (str ''retry'') = 5" "length (str ''data'') = 4"
  "length (str ''id'') = 2"
  by (simp_all add: str_def)

lemma process_line_event:
  assumes "prefix (str ''event'') (replace_reTrim part)"
  shows "process_line origin part d
         = Normal (d\<lparr>eventType := Some (after_field (drop 5 (replace_reTrim part)))\<rparr>)"
  using assms by (simp add: process_line_def Let_def replace_field_prefix length_literals)

lemma process_line_retry:
  assumes "prefix (str ''retry'') (replace_reTrim part)"
  shows "process_line origin part d
         = assign_retry (parseInt (after_field (drop 5 (replace_reTrim part)))) d"
proof -
  from assms obtain t where t: "replace_reTrim part = 0x72 # t"
    using prefix_head [of "0x72" "str ''etry''" "replace_reTrim part"] by (auto simp add: str_def)
  have "\<not> prefix (str ''event'') (replace_reTrim part)"
    by (simp add: t str_def)
  with assms show ?thesis
    by (simp add: process_line_def Let_def replace_field_prefix length_literals)
qed

lemma process_line_data:
  assumes "prefix (str ''data'') (replace_reTrim part)"
  shows "process_line origin part d
         = Normal (d\<lparr>data := data d @ [after_field (drop 4 (replace_reTrim part))]\<rparr>)"
proof -
  from assms obtain t where t: "replace_reTrim part = 0x64 # t"
    using prefix_head [of "0x64" "str ''ata''" "replace_reTrim part"] by (auto simp add: str_def)
  have "\<not> prefix (str ''event'') (replace_reTrim part)"
    "\<not> prefix (str ''retry'') (replace_reTrim part)"
    by (simp_all add: t str_def)
  with assms show ?thesis
    by (simp add: process_line_def Let_def replace_field_prefix length_literals)
qed

lemma process_line_id:
  assumes "prefix (str ''id'') (replace_reTrim part)"
  shows "process_line origin part d
         = Normal (d\<lparr>self_lastEventId :=
                       (if prefix (str ''id:'') (replace_reTrim part)
                        then Some (after_field (drop 2 (replace_reTrim part))) else None)\<rparr>)"
proof -
  from assms obtain t where t: "replace_reTrim part = 0x69 # t"
    using prefix_head [of "0x69" "str ''d''" "replace_reTrim part"] by (auto simp add: str_def)
  have "\<not> prefix (str ''event'') (replace_reTrim part)"
    "\<not> prefix (str ''retry'') (replace_reTrim part)"
    "\<not> prefix (str ''data'') (replace_reTrim part)"
    by (simp_all add: t str_def)
  with assms show ?thesis
    by (simp add: process_line_def Let_def replace_field_prefix length_literals)
qed

lemma replace_reTrim_database: "replace_reTrim (str ''database: x'') = str ''database: x''"
  by (simp add: replace_reTrim_def reTrim_class_def re_space_def str_def)

text \<open>
  Claim C10. The loop looks at the start of the trimmed line only. A line that starts with
  \<^verbatim>\<open>data\<close> adds a data line, namely the line without \<^verbatim>\<open>data\<close>, without one colon behind
  it and without the white space that follows (which is what replacing the first match of
  \<^verbatim>\<open>/data:?\s*/\<close> leaves of a line with that prefix); so \<^verbatim>\<open>database: x\<close> adds the data line
  \<^verbatim>\<open>base: x\<close>. In the same way a line that starts with \<^verbatim>\<open>event\<close> sets the event name, one
  that starts with \<^verbatim>\<open>retry\<close> runs the assignments to \<^verbatim>\<open>retry\<close> and \<^verbatim>\<open>interval\<close>, one that
  starts with \<^verbatim>\<open>id:\<close> sets the last event id, and one that starts with \<^verbatim>\<open>id\<close> but not
  with \<^verbatim>\<open>id:\<close> resets it. None of them is skipped as an unknown field.
\<close>

theorem line_classified_by_prefix:
  "(prefix (str ''data'') (replace_reTrim part) \<longrightarrow>
      process_line origin part d
      = Normal (d\<lparr>data := data d @ [after_field (drop 4 (replace_reTrim part))]\<rparr>))
   \<and> (prefix (str ''event'') (replace_reTrim part) \<longrightarrow>
      process_line origin part d
      = Normal (d\<lparr>eventType := Some (after_field (drop 5 (replace_reTrim part)))\<rparr>))
   \<and> (prefix (str ''retry'') (replace_reTrim part) \<longrightarrow>
      process_line origin part d
      = assign_retry (parseInt (after_field (drop 5 (replace_reTrim part)))) d)
   \<and> (prefix (str ''id:'') (replace_reTrim part) \<longrightarrow>
      process_line origin part d
      = Normal (d\<lparr>self_lastEventId := Some (after_field (drop 2 (replace_reTrim part)))\<rparr>))
   \<and> (prefix (str ''id'') (replace_reTrim part) \<and> \<not> prefix (str ''id:'') (replace_reTrim part) \<longrightarrow>
      process_line origin part d = Normal (d\<lparr>self_lastEventId := None\<rparr>))
   \<and> process_line origin (str ''database: x'') d
     = Normal (d\<lparr>data := data d @ [str ''base: x'']\<rparr>)
   \<and> (prefix name l \<longrightarrow> replace_field name l = after_field (drop (length name) l))"
proof -
  have idc: "prefix (str ''id'') l" if "prefix (str ''id:'') l" for l
    using that by (auto simp add: str_def prefix_def)
  have p: "prefix (str ''data'') (replace_reTrim (str ''database: x''))"
    unfolding replace_reTrim_database by (simp add: str_def)
  have a: "after_field (drop 4 (str ''database: x'')) = str ''base: x''"
    by (simp add: str_def after_field_def re_space_def)
  have ex: "process_line origin (str ''database: x'') d
     = Normal (d\<lparr>data := data d @ [str ''base: x'']\<rparr>)"
    using process_line_data [OF p, of origin d] a by (simp add: replace_reTrim_database)
  from ex idc [of "replace_reTrim part"] show ?thesis
    by (simp add: process_line_data process_line_event process_line_retry process_line_id
        replace_field_prefix)
qed

lemmas string_eval = str_def replace_reTrim_def reTrim_class_def re_space_def after_field_def

text \<open>
  Witness for C10: the lines \<^verbatim>\<open>database: x\<close> (with white space around it), \<^verbatim>\<open>eventful\<close>,
  \<^verbatim>\<open>retrying\<close>, \<^verbatim>\<open>id: 7\<close> and \<^verbatim>\<open>idle\<close>.
\<close>

theorem line_classified_by_prefix_witness:
  "prefix (str ''data'') (replace_reTrim (str '' database: x ''))
   \<and> process_line [] (str '' database: x '') (fresh_decoder None no_globals)
     = Normal ((fresh_decoder None no_globals)\<lparr>data := [str ''base: x'']\<rparr>)
   \<and> prefix (str ''event'') (replace_reTrim (str ''eventful''))
   \<and> process_line [] (str ''eventful'') (fresh_decoder None no_globals)
     = Normal ((fresh_decoder None no_globals)\<lparr>eventType := Some (str ''ful'')\<rparr>)
   \<and> prefix (str ''retry'') (replace_reTrim (str ''retrying''))
   \<and> process_line [] (str ''retrying'') (fresh_decoder None no_globals)
     = Thrown ReferenceError (fresh_decoder None no_globals)
   \<and> prefix (str ''id:'') (replace_reTrim (str ''id: 7''))
   \<and> process_line [] (str ''id: 7'') (fresh_decoder None no_globals)
     = Normal ((fresh_decoder None no_globals)\<lparr>self_lastEventId := Some (str ''7'')\<rparr>)
   \<and> prefix (str ''id'') (replace_reTrim (str ''idle''))
   \<and> \<not> prefix (str ''id:'') (replace_reTrim (str ''idle''))
   \<and> process_line [] (str ''idle'') (fresh_decoder (Some (str ''7'')) no_globals)
     = Normal ((fresh_decoder (Some (str ''7'')) no_globals)\<lparr>self_lastEventId := None\<rparr>)
   \<and> replace_field (str ''data'') (str ''database: x'') = str ''base: x''"
proof -
  have t: "replace_reTrim (str '' database: x '') = str ''database: x''"
    "replace_reTrim (str ''eventful'') = str ''eventful''"
    "replace_reTrim (str ''retrying'') = str ''retrying''"
    "replace_reTrim (str ''id: 7'') = str ''id: 7''"
    "replace_reTrim (str ''idle'') = str ''idle''"
    by (simp_all add: string_eval)
  have p: "prefix (str ''data'') (str ''database: x'')" "prefix (str ''event'') (str ''eventful'')"
    "prefix (str ''retry'') (str ''retrying'')" "prefix (str ''id:'') (str ''id: 7'')"
    "prefix (str ''id'') (str ''idle'')" "\<not> prefix (str ''id:'') (str ''idle'')"
    by (simp_all add: str_def)
  have a: "after_field (drop 4 (str ''database: x'')) = str ''base: x''"
    "after_field (drop 5 (str ''eventful'')) = str ''ful''"
    "after_field (drop 2 (str ''id: 7'')) = str ''7''"
    by (simp_all add: string_eval)
  have r: "assign_retry v (fresh_decoder None no_globals)
           = Thrown ReferenceError (fresh_decoder None no_globals)" for v
    by (simp add: assign_retry_def fresh_decoder_def no_globals_def)
  have d: "data (fresh_decoder None no_globals) = []" by (simp add: fresh_decoder_def)
  from line_classified_by_prefix
      [where part = "str '' database: x ''" and origin = "[]"
         and d = "fresh_decoder None no_globals" and name = "str ''data''"
         and l = "str ''database: x''"]
    line_classified_by_prefix [of "str ''eventful''" "[]" "fresh_decoder None no_globals"]
    line_classified_by_prefix [of "str ''retrying''" "[]" "fresh_decoder None no_globals"]
    line_classified_by_prefix [of "str ''id: 7''" "[]" "fresh_decoder None no_globals"]
    line_classified_by_prefix [of "str ''idle''" "[]" "fresh_decoder (Some (str ''7'')) no_globals"]
  show ?thesis by (simp add: t p a r d length_literals)
qed

subsection \<open>Decoding in one run and in two\<close>

lemmas decoder_eval =
  decode_def fresh_decoder_def process_line_def replace_reTrim_def reTrim_class_def re_space_def
  after_field_def Let_def MessageEvent_def assign_retry_def

lemma decode_hello:
  "decode origin (str ''data: hello\<newline>\<newline>'') [] lastId g
   = (Normal ((fresh_decoder lastId g)
        \<lparr>frames := [(str ''message'', MessageEvent (str ''hello'') origin lastId)]\<rparr>),
      str ''data: hello\<newline>\<newline>'')"
  by (simp add: decoder_eval str_def)

lemma decode_ping:
  "decode origin (str ''event: ping\<newline>data: {\"n\":1}\<newline>\<newline>'') [] lastId g
   = (Normal ((fresh_decoder lastId g)
        \<lparr>frames := [(str ''ping'', MessageEvent (str ''{\"n\":1}'') origin lastId)]\<rparr>),
      str ''event: ping\<newline>data: {\"n\":1}\<newline>\<newline>'')"
  by (simp add: decoder_eval str_def)

lemma split_nl_not_Nil [simp]: "split_nl s \<noteq> []"
  by (induction s) (auto split: list.splits)

lemma split_nl_append_newline: "split_nl (a @ 0x000A # b) = split_nl a @ split_nl b"
proof (induction a)
  case Nil
  show ?case by simp
next
  case (Cons c a)
  obtain p ps where ps: "split_nl a = p # ps"
    by (cases "split_nl a") simp_all
  with Cons show ?case by simp
qed

lemma process_lines_append:
  "process_lines origin (ps @ qs) d
   = (case process_lines origin ps d of
        Normal d' \<Rightarrow> process_lines origin qs d'
      | Thrown e d' \<Rightarrow> Thrown e d')"
  by (induction ps arbitrary: d) (simp_all split: outcome.splits)

text \<open>The loop only appends to the frames it has recorded and never reads them.\<close>

lemma process_line_frames:
  "process_line origin p (d\<lparr>frames := fs @ frames d\<rparr>)
   = map_outcome (\<lambda>d'. d'\<lparr>frames := fs @ frames d'\<rparr>) (process_line origin p d)"
  by (simp add: process_line_def assign_retry_def Let_def split: option.splits)

lemma process_lines_frames:
  "process_lines origin ps (d\<lparr>frames := fs @ frames d\<rparr>)
   = map_outcome (\<lambda>d'. d'\<lparr>frames := fs @ frames d'\<rparr>) (process_lines origin ps d)"
proof (induction ps arbitrary: d)
  case Nil
  show ?case by simp
next
  case (Cons p ps)
  show ?case
  proof (cases "process_line origin p d")
    case (Normal d')
    with Cons.IH [of d'] show ?thesis by (simp add: process_line_frames)
  next
    case (Thrown e d')
    then show ?thesis by (simp add: process_line_frames)
  qed
qed

lemma process_line_blank_idle:
  "data d = [] \<Longrightarrow> process_line origin [] d = Normal d"
  by (simp add: process_line_def replace_reTrim_def str_def)

lemma decode_cursor: "snd (decode origin responseText c lastId g) = responseText"
  by (simp add: decode_def)

lemma decode_suffix:
  "decode origin (chunk1 @ chunk2) chunk1 lastId g
   = (fst (decode origin chunk2 [] lastId g), chunk1 @ chunk2)"
  by (simp add: decode_def)

lemma decode_twice_eq:
  "decode_twice origin chunk1 chunk2 lastId g
   = (let d1 = state_of (fst (decode origin chunk1 [] lastId g))
      in frames d1
         @ frames (state_of (fst (decode origin chunk2 [] (self_lastEventId d1) (global_scope d1)))))"
  by (simp add: decode_twice_def decode_def Let_def)

lemma decode_at_frame_boundary:
  assumes "fst (decode origin c1 [] lastId g) = Normal d1" "data d1 = []" "eventType d1 = None"
  shows "decode_twice origin (c1 @ [0x000A]) chunk2 lastId g
         = frames (state_of (fst (decode origin (c1 @ 0x000A # chunk2) [] lastId g)))"
proof -
  from assms(1) have p1: "process_lines origin (split_nl c1) (fresh_decoder lastId g) = Normal d1"
    by (simp add: decode_def)
  have d1: "d1 = (fresh_decoder (self_lastEventId d1) (global_scope d1))\<lparr>frames := frames d1\<rparr>"
    using assms(2,3) by (simp add: fresh_decoder_def)
  let ?f = "fresh_decoder (self_lastEventId d1) (global_scope d1)"
  have "process_lines origin (split_nl chunk2) d1
        = process_lines origin (split_nl chunk2) (?f\<lparr>frames := frames d1 @ frames ?f\<rparr>)"
    using d1 by (simp add: fresh_decoder_def)
  also have "\<dots> = map_outcome (\<lambda>d'. d'\<lparr>frames := frames d1 @ frames d'\<rparr>)
                      (process_lines origin (split_nl chunk2) ?f)"
    by (rule process_lines_frames)
  finally have whole: "process_lines origin (split_nl (c1 @ 0x000A # chunk2)) (fresh_decoder lastId g)
        = map_outcome (\<lambda>d'. d'\<lparr>frames := frames d1 @ frames d'\<rparr>)
            (process_lines origin (split_nl chunk2) ?f)"
    by (simp add: split_nl_append_newline process_lines_append p1)
  have first: "fst (decode origin (c1 @ [0x000A]) [] lastId g) = Normal d1"
    using split_nl_append_newline [of c1 "[]"] p1 assms(2)
    by (simp add: decode_def process_lines_append process_line_blank_idle)
  have "frames (state_of (fst (decode origin (c1 @ 0x000A # chunk2) [] lastId g)))
        = frames d1 @ frames (state_of (process_lines origin (split_nl chunk2) ?f))"
    by (cases "process_lines origin (split_nl chunk2) ?f") (simp_all add: decode_def whole)
  moreover have "decode_twice origin (c1 @ [0x000A]) chunk2 lastId g
        = frames d1 @ frames (state_of (process_lines origin (split_nl chunk2) ?f))"
    by (simp add: decode_twice_eq first) (simp add: decode_def)
  ultimately show ?thesis by simp
qed

text \<open>
  Claim C1, as stated, fails. The body \<^verbatim>\<open>data: hello\<close> followed by an empty line gives one
  frame when decoded in one run. Split inside the line, after \<^verbatim>\<open>data: hel\<close>, the two runs
  give no frame at all: the first run consumes the unfinished line (the cursor is the whole
  chunk), and its data line is gone when the second run starts. Split between the two
  data lines of one frame, the two runs give two frames where one run gives one.
\<close>

theorem decode_chunked_counterexample:
  "decode_twice [] (str ''data: hel'') (str ''lo\<newline>\<newline>'') None no_globals = []
   \<and> frames (state_of (fst (decode [] (str ''data: hel'' @ str ''lo\<newline>\<newline>'') [] None
                                no_globals)))
     = [(str ''message'', MessageEvent (str ''hello'') [] None)]
   \<and> snd (decode [] (str ''data: hel'') [] None no_globals) = str ''data: hel''
   \<and> decode_twice [] (str ''data: a\<newline>'') (str ''data: b\<newline>\<newline>'') None no_globals
     = [(str ''message'', MessageEvent (str ''a'') [] None),
        (str ''message'', MessageEvent (str ''b'') [] None)]
   \<and> frames (state_of (fst (decode [] (str ''data: a\<newline>'' @ str ''data: b\<newline>\<newline>'') []
                                None no_globals)))
     = [(str ''message'', MessageEvent (str ''a\<newline>b'') [] None)]"
  by (simp add: decode_twice_eq decoder_eval str_def no_globals_def)

text \<open>
  Claim C1, amended. Every run moves the cursor to the end of the text it was given, so
  nothing stays unconsumed; the second run decodes exactly the second chunk, from fresh
  locals, with the last event id and the globals the first run left; the frames of the two
  runs are those of the two chunks decoded one after the other. When the first chunk ends
  with a line separator, and decoding what precedes that separator raises no exception
  and leaves no data line and no event name pending, the two runs yield the same frames,
  in the same order, as one run on the whole text.
\<close>

theorem decode_chunks:
  "snd (decode origin responseText c lastId g) = responseText
   \<and> decode origin (chunk1 @ chunk2) chunk1 lastId g
     = (fst (decode origin chunk2 [] lastId g), chunk1 @ chunk2)
   \<and> decode_twice origin chunk1 chunk2 lastId g
     = (let d1 = state_of (fst (decode origin chunk1 [] lastId g))
        in frames d1
           @ frames (state_of (fst (decode origin chunk2 [] (self_lastEventId d1) (global_scope d1)))))
   \<and> (fst (decode origin c1 [] lastId g) = Normal d1 \<and> data d1 = [] \<and> eventType d1 = None \<longrightarrow>
        decode_twice origin (c1 @ [0x000A]) chunk2 lastId g
        = frames (state_of (fst (decode origin (c1 @ 0x000A # chunk2) [] lastId g))))"
proof (intro conjI impI)
  show "snd (decode origin responseText c lastId g) = responseText"
    by (rule decode_cursor)
  show "decode origin (chunk1 @ chunk2) chunk1 lastId g
     = (fst (decode origin chunk2 [] lastId g), chunk1 @ chunk2)"
    by (rule decode_suffix)
  show "decode_twice origin chunk1 chunk2 lastId g
     = (let d1 = state_of (fst (decode origin chunk1 [] lastId g))
        in frames d1
           @ frames (state_of (fst (decode origin chunk2 [] (self_lastEventId d1) (global_scope d1)))))"
    by (rule decode_twice_eq)
  assume "fst (decode origin c1 [] lastId g) = Normal d1 \<and> data d1 = [] \<and> eventType d1 = None"
  then show "decode_twice origin (c1 @ [0x000A]) chunk2 lastId g
        = frames (state_of (fst (decode origin (c1 @ 0x000A # chunk2) [] lastId g)))"
    by (intro decode_at_frame_boundary) blast+
qed

text \<open>
  Witness for C1: a split after the empty line that ends the first of two frames.
\<close>

theorem decode_chunks_witness:
  "snd (decode [] (str ''data: hel'') [] None no_globals) = str ''data: hel''
   \<and> fst (decode [] (str ''data: a\<newline>'') [] None no_globals)
     = Normal ((fresh_decoder None no_globals)
                 \<lparr>frames := [(str ''message'', MessageEvent (str ''a'') [] None)]\<rparr>)
   \<and> decode_twice [] (str ''data: a\<newline>'' @ [0x000A]) (str ''data: b\<newline>\<newline>'') None no_globals
     = [(str ''message'', MessageEvent (str ''a'') [] None),
        (str ''message'', MessageEvent (str ''b'') [] None)]
   \<and> frames (state_of (fst (decode []
               (str ''data: a\<newline>'' @ 0x000A # str ''data: b\<newline>\<newline>'') [] None no_globals)))
     = [(str ''message'', MessageEvent (str ''a'') [] None),
        (str ''message'', MessageEvent (str ''b'') [] None)]"
proof -
  let ?d1 = "(fresh_decoder None no_globals)
               \<lparr>frames := [(str ''message'', MessageEvent (str ''a'') [] None)]\<rparr>"
  have a: "fst (decode [] (str ''data: a\<newline>'') [] None no_globals) = Normal ?d1"
    by (simp add: decoder_eval str_def)
  have b: "data ?d1 = []" "eventType ?d1 = None" by (simp_all add: fresh_decoder_def)
  have c: "frames (state_of (fst (decode []
               (str ''data: a\<newline>'' @ 0x000A # str ''data: b\<newline>\<newline>'') [] None no_globals)))
     = [(str ''message'', MessageEvent (str ''a'') [] None),
        (str ''message'', MessageEvent (str ''b'') [] None)]"
    by (simp add: decoder_eval str_def)
  from a b c
    decode_chunks [where origin = "[]" and responseText = "str ''data: hel''" and c = "[]"
                     and lastId = None and g = no_globals and ?chunk1.0 = "[]"
                     and ?c1.0 = "str ''data: a\<newline>''" and ?d1.0 = ?d1
                     and ?chunk2.0 = "str ''data: b\<newline>\<newline>''"]
  show ?thesis by simp
qed

section \<open>Properties of the connection state machine\<close>

subsection \<open>Effects of the operations, field by field\<close>

lemmas event_names = ON_OPEN_def ON_ERROR_def ON_CLOSE_def ON_STATE_def ON_TIMEOUT_def str_def

lemma close_es_closed: "readyState s = Some CLOSED \<Longrightarrow> close_es error s = s"
  by (simp add: close_es_def)

lemma close_es_open:
  "readyState s \<noteq> Some CLOSED \<Longrightarrow>
   close_es error s =
     s\<lparr>readyState := Some CLOSED,
       pollTimer := None,
       armed := (case pollTimer s of None \<Rightarrow> armed s | Some h \<Rightarrow> removeAll h (armed s)),
       xhr := (case xhr s of None \<Rightarrow> None
               | Some x \<Rightarrow> Some (x\<lparr>xhr_readyState := 0, xhr_status := 0, xhr_responseText := []\<rparr>)),
       aborted := (case xhr s of None \<Rightarrow> aborted s | Some x \<Rightarrow> Suc (aborted s)),
       attempts := 0,
       emitted := emitted s @ [(ON_STATE, OnState CLOSED (readyState s)), (ON_CLOSE, OnClose error)]\<rparr>"
  by (simp add: close_es_def setReadyState_def emit_def clearInterval_def abort_def Let_def
      split: option.splits)


lemma poll_ok:
  "readyState s \<noteq> Some CLOSED \<Longrightarrow>
   poll JSON_parse True s =
     s\<lparr>xhr := Some \<lparr>xhr_readyState = 1, xhr_status = 0, xhr_responseText = [], cache = []\<rparr>,
       sent := sent s @ [case lastEventId s of None \<Rightarrow> None
                         | Some i \<Rightarrow> if i = [] then None else Some i]\<rparr>"
  by (simp add: poll_def)

lemma readyState_setReadyState [simp]: "readyState (setReadyState st s) = Some st"
  by (simp add: setReadyState_def emit_def Let_def)

lemma open_es_idle_ok:
  "(case xhr s of None \<Rightarrow> True | Some x \<Rightarrow> xhr_readyState x = 4 \<or> xhr_readyState x = 0)
   \<Longrightarrow> pollTimer s = None \<Longrightarrow>
   open_es JSON_parse True s =
     (setReadyState CONNECTING s)
       \<lparr>xhr := Some \<lparr>xhr_readyState = 1, xhr_status = 0, xhr_responseText = [], cache = []\<rparr>,
        sent := sent s @ [case lastEventId s of None \<Rightarrow> None
                          | Some i \<Rightarrow> if i = [] then None else Some i]\<rparr>"
  by (simp add: open_es_def poll_ok) (simp add: setReadyState_def emit_def Let_def)


lemma publish_frames_eq:
  "publish_frames JSON_parse fs s = s\<lparr>emitted := emitted s @ map (published JSON_parse) fs\<rparr>"
proof (induction fs arbitrary: s)
  case Nil
  show ?case by (simp add: publish_frames_def)
next
  case (Cons f fs)
  have "publish_frames JSON_parse (f # fs) s
        = publish_frames JSON_parse fs (emitMessage JSON_parse (fst f) (snd f) s)"
    by (cases f) (simp add: publish_frames_def)
  also have "\<dots> = s\<lparr>emitted := emitted s @ map (published JSON_parse) (f # fs)\<rparr>"
    by (simp add: Cons.IH emitMessage_def emit_def Let_def)
  finally show ?case .
qed

lemma onreadystatechange_done_status_0:
  "xhr s = Some x \<Longrightarrow> xhr_readyState x = 4 \<Longrightarrow> xhr_status x = 0 \<Longrightarrow>
   onreadystatechange JSON_parse r s = Normal s"
  by (simp add: onreadystatechange_def)

lemma receive_failure:
  "receive JSON_parse r 4 0 text s = Normal (transport_state 4 0 text s)"
  by (cases "xhr s") (simp_all add: receive_def transport_state_def onreadystatechange_def)


lemma network_failure_retry:
  assumes "xhr s = Some x" "RETRY_ON_NETWORK_ERROR s"
    and "MAX_ATTEMPTS s < 0 \<or> attempts s < MAX_ATTEMPTS s"
  shows "network_failure JSON_parse r s =
     s\<lparr>xhr := Some (x\<lparr>xhr_readyState := 4, xhr_status := 0, xhr_responseText := []\<rparr>),
       emitted := emitted s
         @ (if attempts s = 0 then [(ON_ERROR, OnError 0 (Some []) (JObject []))] else [])
         @ (if readyState s \<noteq> Some CONNECTING
            then [(ON_STATE, OnState CONNECTING (readyState s))] else []),
       readyState := Some CONNECTING,
       attempts := attempts s + 1,
       pollTimer := Some (Suc (length (timeouts s))),
       timeouts := timeouts s @ [backoffInterval r (attempts s + 1) (MIN_INTERVAL s) (MAX_INTERVAL s)],
       armed := armed s @ [Suc (length (timeouts s))]\<rparr>"
  using assms
  by (auto simp add: network_failure_def receive_failure transport_state_def onerror_def
      emitError_def emit_def setReadyState_def retry_def pollAgain_def Let_def)

lemma network_failure_close:
  assumes "xhr s = Some x"
    and "\<not> (RETRY_ON_NETWORK_ERROR s \<and> (MAX_ATTEMPTS s < 0 \<or> attempts s < MAX_ATTEMPTS s))"
  shows "network_failure JSON_parse r s =
     close_es True
       (s\<lparr>xhr := Some (x\<lparr>xhr_readyState := 4, xhr_status := 0, xhr_responseText := []\<rparr>),
          emitted := emitted s
            @ (if attempts s = 0 then [(ON_ERROR, OnError 0 (Some []) (JObject []))] else [])\<rparr>)"
  using assms
  by (auto simp add: network_failure_def receive_failure transport_state_def onerror_def
      emitError_def emit_def Let_def)

lemma error_events_close_es:
  "filter (\<lambda>e. fst e = ON_ERROR) (emitted (close_es error s)) = filter (\<lambda>e. fst e = ON_ERROR) (emitted s)"
  by (cases "readyState s = Some CLOSED") (simp_all add: close_es_open close_es_closed event_names)

lemma network_failure_error_events:
  "xhr s = Some x \<Longrightarrow>
   filter (\<lambda>e. fst e = ON_ERROR) (emitted (network_failure JSON_parse r s))
   = filter (\<lambda>e. fst e = ON_ERROR) (emitted s)
     @ (if attempts s = 0 then [(ON_ERROR, OnError 0 (Some []) (JObject []))] else [])"
proof (cases "RETRY_ON_NETWORK_ERROR s \<and> (MAX_ATTEMPTS s < 0 \<or> attempts s < MAX_ATTEMPTS s)")
  case True
  assume "xhr s = Some x"
  with True show ?thesis
    by (simp add: network_failure_retry [of s x] event_names)
next
  case False
  assume "xhr s = Some x"
  with False show ?thesis
    by (simp add: network_failure_close [of s x] error_events_close_es)
qed

lemma timer_fired_ok_keeps:
  "attempts (timer_fired JSON_parse True h s) = attempts s"
  "emitted (timer_fired JSON_parse True h s) = emitted s"
  "xhr s \<noteq> None \<Longrightarrow> xhr (timer_fired JSON_parse True h s) \<noteq> None"
  by (simp_all add: timer_fired_def poll_def)

lemma network_failure_retry_fields:
  assumes "xhr s = Some x" "RETRY_ON_NETWORK_ERROR s"
    and "MAX_ATTEMPTS s < 0 \<or> attempts s < MAX_ATTEMPTS s"
  shows "attempts (network_failure JSON_parse r s) = attempts s + 1"
    and "readyState (network_failure JSON_parse r s) = Some CONNECTING"
    and "armed (network_failure JSON_parse r s) = armed s @ [Suc (length (timeouts s))]"
    and "timeouts (network_failure JSON_parse r s)
         = timeouts s @ [backoffInterval r (attempts s + 1) (MIN_INTERVAL s) (MAX_INTERVAL s)]"
    and "pollTimer (network_failure JSON_parse r s) = Some (Suc (length (timeouts s)))"
    and "xhr (network_failure JSON_parse r s) \<noteq> None"
    and "sent (network_failure JSON_parse r s) = sent s"
    and "MAX_ATTEMPTS (network_failure JSON_parse r s) = MAX_ATTEMPTS s"
    and "MIN_INTERVAL (network_failure JSON_parse r s) = MIN_INTERVAL s"
    and "MAX_INTERVAL (network_failure JSON_parse r s) = MAX_INTERVAL s"
    and "RETRY_ON_NETWORK_ERROR (network_failure JSON_parse r s) = RETRY_ON_NETWORK_ERROR s"
  by (simp_all add: network_failure_retry [OF assms])

lemma timer_fired_ok_fields:
  assumes "h \<in> set (armed s)" "readyState s \<noteq> Some CLOSED"
  shows "attempts (timer_fired JSON_parse True h s) = attempts s"
    and "readyState (timer_fired JSON_parse True h s) = readyState s"
    and "armed (timer_fired JSON_parse True h s) = removeAll h (armed s)"
    and "timeouts (timer_fired JSON_parse True h s) = timeouts s"
    and "pollTimer (timer_fired JSON_parse True h s) = pollTimer s"
    and "xhr (timer_fired JSON_parse True h s)
         = Some \<lparr>xhr_readyState = 1, xhr_status = 0, xhr_responseText = [], cache = []\<rparr>"
    and "length (sent (timer_fired JSON_parse True h s)) = Suc (length (sent s))"
    and "emitted (timer_fired JSON_parse True h s) = emitted s"
    and "MAX_ATTEMPTS (timer_fired JSON_parse True h s) = MAX_ATTEMPTS s"
    and "MIN_INTERVAL (timer_fired JSON_parse True h s) = MIN_INTERVAL s"
    and "MAX_INTERVAL (timer_fired JSON_parse True h s) = MAX_INTERVAL s"
    and "RETRY_ON_NETWORK_ERROR (timer_fired JSON_parse True h s) = RETRY_ON_NETWORK_ERROR s"
  using assms by (simp_all add: timer_fired_def poll_def)

lemma network_failure_close_fields:
  assumes "xhr s = Some x" "readyState s = Some CONNECTING" "attempts s \<noteq> 0"
    and "\<not> (RETRY_ON_NETWORK_ERROR s \<and> (MAX_ATTEMPTS s < 0 \<or> attempts s < MAX_ATTEMPTS s))"
  shows "readyState (network_failure JSON_parse r s) = Some CLOSED"
    and "timeouts (network_failure JSON_parse r s) = timeouts s"
    and "armed (network_failure JSON_parse r s)
         = (case pollTimer s of None \<Rightarrow> armed s | Some h \<Rightarrow> removeAll h (armed s))"
    and "pollTimer (network_failure JSON_parse r s) = None"
    and "attempts (network_failure JSON_parse r s) = 0"
    and "emitted (network_failure JSON_parse r s)
         = emitted s @ [(ON_STATE, OnState CLOSED (Some CONNECTING)), (ON_CLOSE, OnClose True)]"
    and "sent (network_failure JSON_parse r s) = sent s"
  using assms(2,3)
  by (simp_all add: network_failure_close [OF assms(1,4)] close_es_open split: option.splits)

lemma constructor_fields:
  "RETRY_ON_NETWORK_ERROR (constructor g c)"
  "MAX_ATTEMPTS (constructor g c) = or_number (maxAttempts c) (- 1)"
  "attempts (constructor g c) = 0"
  "xhr (constructor g c) = None"
  "pollTimer (constructor g c) = None"
  "readyState (constructor g c) = None"
  "timeouts (constructor g c) = []"
  "armed (constructor g c) = []"
  "sent (constructor g c) = []"
  "emitted (constructor g c) = []"
  by (simp_all add: constructor_def or_boolean_def split: option.splits)

lemma open_es_fresh_fields:
  assumes "xhr s = None" "pollTimer s = None"
  shows "xhr (open_es JSON_parse True s)
         = Some \<lparr>xhr_readyState = 1, xhr_status = 0, xhr_responseText = [], cache = []\<rparr>"
    and "readyState (open_es JSON_parse True s) = Some CONNECTING"
    and "attempts (open_es JSON_parse True s) = attempts s"
    and "timeouts (open_es JSON_parse True s) = timeouts s"
    and "armed (open_es JSON_parse True s) = armed s"
    and "pollTimer (open_es JSON_parse True s) = None"
    and "length (sent (open_es JSON_parse True s)) = Suc (length (sent s))"
    and "MAX_ATTEMPTS (open_es JSON_parse True s) = MAX_ATTEMPTS s"
    and "MIN_INTERVAL (open_es JSON_parse True s) = MIN_INTERVAL s"
    and "MAX_INTERVAL (open_es JSON_parse True s) = MAX_INTERVAL s"
    and "RETRY_ON_NETWORK_ERROR (open_es JSON_parse True s) = RETRY_ON_NETWORK_ERROR s"
    and "emitted (open_es JSON_parse True s)
         = emitted s @ (if readyState s \<noteq> Some CONNECTING
                        then [(ON_STATE, OnState CONNECTING (readyState s))] else [])"
  using assms by (simp_all add: open_es_idle_ok) (simp_all add: setReadyState_def emit_def Let_def)

lemma emitted_network_failure_retry:
  assumes "xhr s = Some x" "RETRY_ON_NETWORK_ERROR s"
    and "MAX_ATTEMPTS s < 0 \<or> attempts s < MAX_ATTEMPTS s"
  shows "emitted (network_failure JSON_parse r s)
         = emitted s
           @ (if attempts s = 0 then [(ON_ERROR, OnError 0 (Some []) (JObject []))] else [])
           @ (if readyState s \<noteq> Some CONNECTING
              then [(ON_STATE, OnState CONNECTING (readyState s))] else [])"
  by (simp add: network_failure_retry [OF assms])

lemma MAX_ATTEMPTS_constructor: "MAX_ATTEMPTS (constructor g c) \<noteq> 0"
  by (simp add: constructor_def or_number_def split: option.splits)



lemma sample_client_eq:
  "sample_client =
     \<lparr>RECONNECT_INTERVAL = 1000, MAX_INTERVAL = 15000, MIN_INTERVAL = 1000, MAX_ATTEMPTS = - 1,
      RETRY_ON_NETWORK_ERROR = True, RETRY_ON_SERVER_ERROR = False,
      SERVER_ERROR_CODES = [502, 503, 504], url = Some (str ''http://h/''), path = str ''sse'',
      readyState = Some CONNECTING, lastEventId = None, pollTimer = None,
      xhr = Some \<lparr>xhr_readyState = 1, xhr_status = 0, xhr_responseText = [], cache = []\<rparr>,
      attempts = 0, emitted = [(ON_STATE, OnState CONNECTING None)], timeouts = [], armed = [],
      sent = [None], aborted = 0, global_env = no_globals\<rparr>"
  by (simp add: sample_client_def constructor_def default_config_def or_number_def
      or_boolean_def or_array_def open_es_def poll_def setReadyState_def emit_def Let_def)

text \<open>
  Where the flag is off, a network failure closes the client with the error flag and
  schedules nothing.
\<close>

lemma network_failure_flag_off:
  assumes "xhr s = Some x" "readyState s \<noteq> Some CLOSED" "\<not> RETRY_ON_NETWORK_ERROR s"
  shows "readyState (network_failure JSON_parse r s) = Some CLOSED"
    and "timeouts (network_failure JSON_parse r s) = timeouts s"
    and "attempts (network_failure JSON_parse r s) = 0"
    and "last (emitted (network_failure JSON_parse r s)) = (ON_CLOSE, OnClose True)"
  using assms by (simp_all add: network_failure_close [of s x] close_es_open)

subsection \<open>An invariant of the reachable states\<close>

lemma readyState_close_es [simp]: "readyState (close_es error s) = Some CLOSED"
  by (cases "readyState s = Some CLOSED") (simp_all add: close_es_open close_es_closed)














subsection \<open>\<^verbatim>\<open>close()\<close>\<close>

text \<open>
  Claim C7. When the client is not \<open>CLOSED\<close>, \<^verbatim>\<open>close(error)\<close> leaves it \<open>CLOSED\<close> with no
  timer handle, removes the handle it held from the pending timers, aborts the request if
  there is one (and only then), resets the attempt counter to 0 and publishes, after the
  state change, exactly one \<^verbatim>\<open>close\<close> event, which carries the error flag; it sends no
  request and schedules nothing. When the client is already \<open>CLOSED\<close>, \<^verbatim>\<open>close\<close> returns
  the state it was given: no field changes and nothing is published.
\<close>

theorem close_es_effect:
  "(readyState s \<noteq> Some CLOSED \<longrightarrow>
      readyState (close_es error s) = Some CLOSED
      \<and> pollTimer (close_es error s) = None
      \<and> (\<forall>h. pollTimer s = Some h \<longrightarrow> h \<notin> set (armed (close_es error s)))
      \<and> (\<forall>x. xhr s = Some x \<longrightarrow>
            aborted (close_es error s) = Suc (aborted s)
            \<and> xhr (close_es error s)
              = Some (x\<lparr>xhr_readyState := 0, xhr_status := 0, xhr_responseText := []\<rparr>))
      \<and> (xhr s = None \<longrightarrow> aborted (close_es error s) = aborted s \<and> xhr (close_es error s) = None)
      \<and> attempts (close_es error s) = 0
      \<and> emitted (close_es error s)
        = emitted s @ [(ON_STATE, OnState CLOSED (readyState s)), (ON_CLOSE, OnClose error)]
      \<and> filter (\<lambda>e. fst e = ON_CLOSE) (emitted (close_es error s))
        = filter (\<lambda>e. fst e = ON_CLOSE) (emitted s) @ [(ON_CLOSE, OnClose error)]
      \<and> sent (close_es error s) = sent s
      \<and> timeouts (close_es error s) = timeouts s
      \<and> lastEventId (close_es error s) = lastEventId s)
   \<and> (readyState s = Some CLOSED \<longrightarrow> close_es error s = s)"
  by (auto simp add: close_es_open close_es_closed event_names)

text \<open>
  Witness for C7: a connecting client is closed after an error, and closed once more.
\<close>

theorem close_es_effect_witness:
  "readyState sample_client \<noteq> Some CLOSED
   \<and> readyState (close_es True sample_client) = Some CLOSED
   \<and> pollTimer (close_es True sample_client) = None
   \<and> attempts (close_es True sample_client) = 0
   \<and> aborted (close_es True sample_client) = 1
   \<and> emitted (close_es True sample_client)
     = [(ON_STATE, OnState CONNECTING None), (ON_STATE, OnState CLOSED (Some CONNECTING)),
        (ON_CLOSE, OnClose True)]
   \<and> close_es False (close_es True sample_client) = close_es True sample_client"
proof -
  have a: "readyState sample_client = Some CONNECTING" "aborted sample_client = 0"
    "emitted sample_client = [(ON_STATE, OnState CONNECTING None)]"
    "xhr sample_client
     = Some \<lparr>xhr_readyState = 1, xhr_status = 0, xhr_responseText = [], cache = []\<rparr>"
    by (simp_all add: sample_client_eq)
  from a close_es_effect [of sample_client True]
    close_es_effect [of "close_es True sample_client" False]
  show ?thesis by simp
qed

subsection \<open>Network failures\<close>

text \<open>
  Claim C9. A network failure (status 0) adds one \<^verbatim>\<open>error\<close> event to those published when
  the attempt counter is 0, and none otherwise. When the failure schedules a retry, the
  failure of the request that the retry sends publishes no \<^verbatim>\<open>error\<close> event: within a
  burst only the first failure is reported.
\<close>

theorem network_failure_error_event_once:
  "(xhr s = Some x \<longrightarrow>
      filter (\<lambda>e. fst e = ON_ERROR) (emitted (network_failure JSON_parse r s))
      = filter (\<lambda>e. fst e = ON_ERROR) (emitted s)
        @ (if attempts s = 0 then [(ON_ERROR, OnError 0 (Some []) (JObject []))] else []))
   \<and> (xhr s = Some x \<and> 0 \<le> attempts s \<and> RETRY_ON_NETWORK_ERROR s
        \<and> (MAX_ATTEMPTS s < 0 \<or> attempts s < MAX_ATTEMPTS s) \<longrightarrow>
      filter (\<lambda>e. fst e = ON_ERROR)
        (emitted (network_failure JSON_parse r' (timer_fired JSON_parse True h (network_failure JSON_parse r s))))
      = filter (\<lambda>e. fst e = ON_ERROR) (emitted (network_failure JSON_parse r s)))"
proof (intro conjI impI)
  assume "xhr s = Some x"
  then show "filter (\<lambda>e. fst e = ON_ERROR) (emitted (network_failure JSON_parse r s))
      = filter (\<lambda>e. fst e = ON_ERROR) (emitted s)
        @ (if attempts s = 0 then [(ON_ERROR, OnError 0 (Some []) (JObject []))] else [])"
    by (rule network_failure_error_events)
next
  assume h: "xhr s = Some x \<and> 0 \<le> attempts s \<and> RETRY_ON_NETWORK_ERROR s
        \<and> (MAX_ATTEMPTS s < 0 \<or> attempts s < MAX_ATTEMPTS s)"
  let ?s1 = "network_failure JSON_parse r s"
  let ?s2 = "timer_fired JSON_parse True h ?s1"
  from h have a1: "attempts ?s1 = attempts s + 1" and x1: "xhr ?s1 \<noteq> None"
    by (simp_all add: network_failure_retry [of s x])
  from a1 h have a2: "attempts ?s2 \<noteq> 0" by (simp add: timer_fired_ok_keeps)
  from x1 obtain x2 where x2: "xhr ?s2 = Some x2"
    using timer_fired_ok_keeps(3) [of ?s1 JSON_parse h] by auto
  from network_failure_error_events [OF x2, of JSON_parse r'] a2
  show "filter (\<lambda>e. fst e = ON_ERROR) (emitted (network_failure JSON_parse r' ?s2))
      = filter (\<lambda>e. fst e = ON_ERROR) (emitted ?s1)"
    by (simp add: timer_fired_ok_keeps)
qed

text \<open>Witness for C9: two failures in a row of the sample client.\<close>

theorem network_failure_error_event_once_witness:
  "attempts sample_client = 0
   \<and> filter (\<lambda>e. fst e = ON_ERROR) (emitted (network_failure sample_parse (1 / 2) sample_client))
     = [(ON_ERROR, OnError 0 (Some []) (JObject []))]
   \<and> filter (\<lambda>e. fst e = ON_ERROR)
       (emitted (network_failure sample_parse (1 / 3)
          (timer_fired sample_parse True 1 (network_failure sample_parse (1 / 2) sample_client))))
     = [(ON_ERROR, OnError 0 (Some []) (JObject []))]"
proof -
  have a: "xhr sample_client
     = Some \<lparr>xhr_readyState = 1, xhr_status = 0, xhr_responseText = [], cache = []\<rparr>"
    "attempts sample_client = 0" "RETRY_ON_NETWORK_ERROR sample_client"
    "MAX_ATTEMPTS sample_client = - 1"
    "filter (\<lambda>e. fst e = ON_ERROR) (emitted sample_client) = []"
    by (simp_all add: sample_client_eq event_names)
  from a network_failure_error_event_once
    [of sample_client "\<lparr>xhr_readyState = 1, xhr_status = 0, xhr_responseText = [], cache = []\<rparr>"
        sample_parse "1 / 2" "1 / 3" 1]
  show ?thesis by simp
qed

text \<open>
  Claim C4. With \<^verbatim>\<open>maxAttempts = 3\<close> and \<^verbatim>\<open>retryOnNetworkError = true\<close>, whatever the rest of
  the configuration and the outcomes of the random source: each of the first three network
  failures schedules one retry (the counter reaches 1, 2 and 3, the client stays
  \<open>CONNECTING\<close>), and the fourth failure schedules none and closes the client with the
  error flag set. Four requests have been sent.
\<close>

theorem three_retries_then_closed:
  "(let s0 = open_es JSON_parse True
               (constructor g (c\<lparr>maxAttempts := Some 3, retryOnNetworkError := Some True\<rparr>));
        s1 = network_failure JSON_parse r1 s0;
        s2 = network_failure JSON_parse r2 (timer_fired JSON_parse True 1 s1);
        s3 = network_failure JSON_parse r3 (timer_fired JSON_parse True 2 s2);
        s4 = network_failure JSON_parse r4 (timer_fired JSON_parse True 3 s3)
    in timeouts s0 = []
       \<and> attempts s1 = 1 \<and> readyState s1 = Some CONNECTING \<and> armed s1 = [1]
       \<and> timeouts s1 = [backoffInterval r1 1 (MIN_INTERVAL s0) (MAX_INTERVAL s0)]
       \<and> attempts s2 = 2 \<and> readyState s2 = Some CONNECTING \<and> armed s2 = [2]
       \<and> timeouts s2 = timeouts s1 @ [backoffInterval r2 2 (MIN_INTERVAL s0) (MAX_INTERVAL s0)]
       \<and> attempts s3 = 3 \<and> readyState s3 = Some CONNECTING \<and> armed s3 = [3]
       \<and> timeouts s3 = timeouts s2 @ [backoffInterval r3 3 (MIN_INTERVAL s0) (MAX_INTERVAL s0)]
       \<and> timeouts s4 = timeouts s3 \<and> armed s4 = [] \<and> pollTimer s4 = None
       \<and> readyState s4 = Some CLOSED
       \<and> emitted s4 = emitted s3 @ [(ON_STATE, OnState CLOSED (Some CONNECTING)),
                                     (ON_CLOSE, OnClose True)]
       \<and> length (sent s4) = 4)"
proof -
  define i where "i = constructor g (c\<lparr>maxAttempts := Some 3, retryOnNetworkError := Some True\<rparr>)"
  define s0 where "s0 = open_es JSON_parse True i"
  define s1 where "s1 = network_failure JSON_parse r1 s0"
  define t1 where "t1 = timer_fired JSON_parse True 1 s1"
  define s2 where "s2 = network_failure JSON_parse r2 t1"
  define t2 where "t2 = timer_fired JSON_parse True 2 s2"
  define s3 where "s3 = network_failure JSON_parse r3 t2"
  define t3 where "t3 = timer_fired JSON_parse True 3 s3"
  define s4 where "s4 = network_failure JSON_parse r4 t3"
  have i: "RETRY_ON_NETWORK_ERROR i" "MAX_ATTEMPTS i = 3" "attempts i = 0" "xhr i = None"
    "pollTimer i = None" "timeouts i = []" "armed i = []" "sent i = []"
    by (simp_all add: i_def constructor_fields or_number_def)
  note o = open_es_fresh_fields [OF i(4,5), of JSON_parse, folded s0_def]
  have c0: "RETRY_ON_NETWORK_ERROR s0" "MAX_ATTEMPTS s0 = 3" "attempts s0 = 0"
    "timeouts s0 = []" "armed s0 = []" "length (sent s0) = 1" "readyState s0 = Some CONNECTING"
    using o i by simp_all
  from o(1) obtain x0 where x0: "xhr s0 = Some x0" by simp
  have g0: "MAX_ATTEMPTS s0 < 0 \<or> attempts s0 < MAX_ATTEMPTS s0" using c0 by simp
  note n1 = network_failure_retry_fields [OF x0 c0(1) g0, of JSON_parse r1, folded s1_def]
  have c1: "attempts s1 = 1" "armed s1 = [1]" "readyState s1 = Some CONNECTING"
    "timeouts s1 = [backoffInterval r1 1 (MIN_INTERVAL s0) (MAX_INTERVAL s0)]"
    "length (sent s1) = 1" "MAX_ATTEMPTS s1 = 3" "RETRY_ON_NETWORK_ERROR s1"
    using n1 c0 by simp_all
  have a1: "1 \<in> set (armed s1)" "readyState s1 \<noteq> Some CLOSED" using c1 by simp_all
  note f1 = timer_fired_ok_fields [OF a1, of JSON_parse, folded t1_def]
  from f1(6) obtain x1 where x1: "xhr t1 = Some x1" by simp
  have d1: "RETRY_ON_NETWORK_ERROR t1" "MAX_ATTEMPTS t1 < 0 \<or> attempts t1 < MAX_ATTEMPTS t1"
    using f1 c1 by simp_all
  note n2 = network_failure_retry_fields [OF x1 d1, of JSON_parse r2, folded s2_def]
  have c2: "attempts s2 = 2" "armed s2 = [2]" "readyState s2 = Some CONNECTING"
    "timeouts s2 = timeouts s1 @ [backoffInterval r2 2 (MIN_INTERVAL s0) (MAX_INTERVAL s0)]"
    "length (sent s2) = 2" "MAX_ATTEMPTS s2 = 3" "RETRY_ON_NETWORK_ERROR s2"
    using n2 f1 c1 n1 by simp_all
  have a2: "2 \<in> set (armed s2)" "readyState s2 \<noteq> Some CLOSED" using c2 by simp_all
  note f2 = timer_fired_ok_fields [OF a2, of JSON_parse, folded t2_def]
  from f2(6) obtain x2 where x2: "xhr t2 = Some x2" by simp
  have d2: "RETRY_ON_NETWORK_ERROR t2" "MAX_ATTEMPTS t2 < 0 \<or> attempts t2 < MAX_ATTEMPTS t2"
    using f2 c2 by simp_all
  note n3 = network_failure_retry_fields [OF x2 d2, of JSON_parse r3, folded s3_def]
  have c3: "attempts s3 = 3" "armed s3 = [3]" "readyState s3 = Some CONNECTING"
    "timeouts s3 = timeouts s2 @ [backoffInterval r3 3 (MIN_INTERVAL s0) (MAX_INTERVAL s0)]"
    "length (sent s3) = 3" "MAX_ATTEMPTS s3 = 3" "pollTimer s3 = Some 3"
    using n3 f2 c2 n2 n1 f1 c1 by simp_all
  have a3: "3 \<in> set (armed s3)" "readyState s3 \<noteq> Some CLOSED" using c3 by simp_all
  note f3 = timer_fired_ok_fields [OF a3, of JSON_parse, folded t3_def]
  from f3(6) obtain x3 where x3: "xhr t3 = Some x3" by simp
  have d3: "readyState t3 = Some CONNECTING" "attempts t3 \<noteq> 0"
    "\<not> (RETRY_ON_NETWORK_ERROR t3 \<and> (MAX_ATTEMPTS t3 < 0 \<or> attempts t3 < MAX_ATTEMPTS t3))"
    using f3 c3 by simp_all
  note n4 = network_failure_close_fields [OF x3 d3, of JSON_parse r4, folded s4_def]
  have c4: "timeouts s4 = timeouts s3" "armed s4 = []" "pollTimer s4 = None"
    "readyState s4 = Some CLOSED" "length (sent s4) = 4"
    "emitted s4 = emitted s3 @ [(ON_STATE, OnState CLOSED (Some CONNECTING)),
                                (ON_CLOSE, OnClose True)]"
    using n4 f3 c3 by simp_all
  from c0 c1 c2 c3 c4 show ?thesis
    unfolding Let_def s4_def t3_def s3_def t2_def s2_def t1_def s1_def s0_def i_def
    by simp
qed

text \<open>
  Witness for C4: the default intervals with \<open>r = 1/2\<close> give the delays 1050, 1100 and 1150.
\<close>

theorem three_retries_then_closed_witness:
  "(let s0 = open_es sample_parse True
               (constructor no_globals
                  (default_config\<lparr>maxAttempts := Some 3, retryOnNetworkError := Some True\<rparr>));
        s3 = network_failure sample_parse (1 / 2)
               (timer_fired sample_parse True 2
                  (network_failure sample_parse (1 / 2)
                     (timer_fired sample_parse True 1
                        (network_failure sample_parse (1 / 2) s0))));
        s4 = network_failure sample_parse (1 / 2) (timer_fired sample_parse True 3 s3)
    in attempts s3 = 3 \<and> timeouts s3 = [1050, 1100, 1150] \<and> timeouts s4 = [1050, 1100, 1150]
       \<and> readyState s3 = Some CONNECTING \<and> readyState s4 = Some CLOSED)"
proof -
  let ?s0 = "open_es sample_parse True
               (constructor no_globals
                  (default_config\<lparr>maxAttempts := Some 3, retryOnNetworkError := Some True\<rparr>))"
  have m: "MIN_INTERVAL ?s0 = 1000" "MAX_INTERVAL ?s0 = 15000"
    by (simp_all add: open_es_fresh_fields constructor_fields)
       (simp_all add: constructor_def default_config_def or_number_def)
  have b: "backoffInterval (1 / 2) 1 1000 15000 = 1050"
    "backoffInterval (1 / 2) 2 1000 15000 = 1100"
    "backoffInterval (1 / 2) 3 1000 15000 = 1150"
    by code_simp+
  from m b three_retries_then_closed
    [of sample_parse no_globals default_config "1 / 2" "1 / 2" "1 / 2" "1 / 2"]
  show ?thesis by (simp add: Let_def)
qed

text \<open>
  Claim C2 does not hold for the code. The constructor computes
  \<^verbatim>\<open>retryOnNetworkError || true\<close>, which is \<^verbatim>\<open>true\<close> for every argument. A client built with
  \<^verbatim>\<open>retryOnNetworkError: false\<close> therefore answers its first network failure with a
  scheduled retry, an attempt counter of 1 and the state \<open>CONNECTING\<close>, and publishes no
  \<^verbatim>\<open>close\<close> event. (\<^verbatim>\<open>MAX_ATTEMPTS\<close> is never 0, so the ceiling cannot stop the first retry.)
  The handler itself honours the flag (lemma \<open>network_failure_flag_off\<close>): it is the
  constructor that cannot switch it off.
\<close>

theorem retryOnNetworkError_false_is_ignored:
  "(let s0 = open_es JSON_parse True (constructor g (c\<lparr>retryOnNetworkError := Some False\<rparr>));
        s1 = network_failure JSON_parse r s0
    in RETRY_ON_NETWORK_ERROR s0
       \<and> attempts s0 = 0 \<and> timeouts s0 = []
       \<and> attempts s1 = 1
       \<and> timeouts s1 = [backoffInterval r 1 (MIN_INTERVAL s0) (MAX_INTERVAL s0)]
       \<and> armed s1 = [1]
       \<and> readyState s1 = Some CONNECTING
       \<and> filter (\<lambda>e. fst e = ON_CLOSE) (emitted s1) = [])"
proof -
  define i where "i = constructor g (c\<lparr>retryOnNetworkError := Some False\<rparr>)"
  define s0 where "s0 = open_es JSON_parse True i"
  define s1 where "s1 = network_failure JSON_parse r s0"
  have m: "MAX_ATTEMPTS i \<noteq> 0"
    unfolding i_def by (rule MAX_ATTEMPTS_constructor)
  have i: "RETRY_ON_NETWORK_ERROR i" "attempts i = 0" "xhr i = None"
    "pollTimer i = None" "timeouts i = []" "armed i = []" "emitted i = []" "readyState i = None"
    by (simp_all add: i_def constructor_fields)
  note o = open_es_fresh_fields [OF i(3,4), of JSON_parse, folded s0_def]
  have c0: "RETRY_ON_NETWORK_ERROR s0" "attempts s0 = 0" "timeouts s0 = []" "armed s0 = []"
    "readyState s0 = Some CONNECTING" "emitted s0 = [(ON_STATE, OnState CONNECTING None)]"
    using o i by simp_all
  from o(1) obtain x0 where x0: "xhr s0 = Some x0" by simp
  have g0: "MAX_ATTEMPTS s0 < 0 \<or> attempts s0 < MAX_ATTEMPTS s0" using o i m by auto
  note n1 = network_failure_retry_fields [OF x0 c0(1) g0, of JSON_parse r, folded s1_def]
    emitted_network_failure_retry [OF x0 c0(1) g0, of JSON_parse r, folded s1_def]
  have c1: "attempts s1 = 1" "armed s1 = [1]" "readyState s1 = Some CONNECTING"
    "timeouts s1 = [backoffInterval r 1 (MIN_INTERVAL s0) (MAX_INTERVAL s0)]"
    "filter (\<lambda>e. fst e = ON_CLOSE) (emitted s1) = []"
    using n1 c0 by (simp_all add: event_names)
  from c0 c1 show ?thesis
    unfolding Let_def s1_def s0_def i_def by simp
qed

text \<open>Witness for the evaluation of C2: the default configuration with the option off.\<close>

theorem retryOnNetworkError_false_is_ignored_witness:
  "(let s0 = open_es sample_parse True
               (constructor no_globals (default_config\<lparr>retryOnNetworkError := Some False\<rparr>));
        s1 = network_failure sample_parse (1 / 2) s0
    in RETRY_ON_NETWORK_ERROR s0 \<and> attempts s1 = 1 \<and> timeouts s1 = [1050]
       \<and> readyState s1 = Some CONNECTING)"
proof -
  let ?s0 = "open_es sample_parse True
               (constructor no_globals (default_config\<lparr>retryOnNetworkError := Some False\<rparr>))"
  have m: "MIN_INTERVAL ?s0 = 1000" "MAX_INTERVAL ?s0 = 15000"
    by (simp_all add: open_es_fresh_fields constructor_fields)
       (simp_all add: constructor_def default_config_def or_number_def)
  have b: "backoffInterval (1 / 2) 1 1000 15000 = 1050"
    by code_simp
  from m b retryOnNetworkError_false_is_ignored [of sample_parse no_globals default_config "1 / 2"]
  show ?thesis by (simp add: Let_def)
qed

section \<open>The decoder inside the handler\<close>

lemma on_open_fields:
  "origin_of (on_open status s) = origin_of s"
  "lastEventId (on_open status s) = lastEventId s"
  "global_env (on_open status s) = global_env s"
  "RECONNECT_INTERVAL (on_open status s) = RECONNECT_INTERVAL s"
  "MIN_INTERVAL (on_open status s) = MIN_INTERVAL s"
  "MAX_INTERVAL (on_open status s) = MAX_INTERVAL s"
  "timeouts (on_open status s) = timeouts s"
  "pollTimer (on_open status s) = pollTimer s"
  "emitted (on_open status s)
   = emitted s @ (if readyState s = Some CONNECTING \<and> status = 200
                  then [(ON_STATE, OnState OPEN (Some CONNECTING)), (ON_OPEN, OnOpen (url s))]
                  else [])"
  by (simp_all add: on_open_def origin_of_def setReadyState_def emit_def Let_def)

lemma on_open_transport_state:
  "xhr s = Some x \<Longrightarrow>
   on_open st (transport_state rs status text s)
   = (on_open st s)\<lparr>xhr := Some (x\<lparr>xhr_readyState := rs, xhr_status := status,
                                     xhr_responseText := text\<rparr>)\<rparr>"
  by (simp add: on_open_def transport_state_def setReadyState_def emit_def Let_def)

lemma origin_of_xhr_update [simp]: "origin_of (s\<lparr>xhr := v\<rparr>) = origin_of s"
  by (simp add: origin_of_def)

lemma decode_pair:
  "decode origin text c lastId g = (fst (decode origin text c lastId g), text)"
  by (simp add: decode_def)

lemma receive_success:
  assumes "xhr s = Some x" "rs = 3 \<or> (rs = 4 \<and> status = 200)"
  shows "receive JSON_parse r rs status text s =
     (let out = fst (decode (origin_of s) text (cache x) (lastEventId s) (global_env s));
          d = state_of out;
          s2 = (on_open status s)
                 \<lparr>xhr := Some (x\<lparr>xhr_readyState := rs, xhr_status := status,
                                   xhr_responseText := text, cache := text\<rparr>),
                  lastEventId := self_lastEventId d,
                  global_env := global_scope d,
                  emitted := emitted (on_open status s) @ map (published JSON_parse) (frames d)\<rparr>
      in case out of
           Thrown e _ \<Rightarrow> Thrown e s2
         | Normal _ \<Rightarrow>
             if rs = 4
             then Normal (pollAgain (randomInterval r (RECONNECT_INTERVAL s) 100)
                            (emit ON_TIMEOUT OnTimeout s2))
             else Normal s2)"
proof -
  let ?x = "x\<lparr>xhr_readyState := rs, xhr_status := status, xhr_responseText := text\<rparr>"
  let ?t = "transport_state rs status text s"
  let ?dec = "decode (origin_of s) text (cache x) (lastEventId s) (global_env s)"
  have t: "xhr ?t = Some ?x"
    using assms(1) by (simp add: transport_state_def)
  have c: "xhr_readyState ?x = 3 \<or> (xhr_readyState ?x = 4 \<and> xhr_status ?x = 200)"
    using assms(2) by simp
  have o: "on_open (xhr_status ?x) ?t = (on_open status s)\<lparr>xhr := Some ?x\<rparr>"
    using on_open_transport_state [OF assms(1)] by simp
  obtain out where d: "?dec = (out, text)"
    using decode_pair [of "origin_of s" "text" "cache x" "lastEventId s" "global_env s"] by blast
  then have f: "fst ?dec = out" by simp
  have "onreadystatechange JSON_parse r ?t =
     (let s1 = on_open (xhr_status ?x) ?t;
          (out, cache') = decode (origin_of s1) (xhr_responseText ?x) (cache ?x)
                            (lastEventId s1) (global_env s1);
          d = state_of out;
          s2 = publish_frames JSON_parse (frames d)
                 (s1\<lparr>xhr := Some (?x\<lparr>cache := cache'\<rparr>),
                     lastEventId := self_lastEventId d,
                     global_env := global_scope d\<rparr>)
      in case out of
           Thrown e _ \<Rightarrow> Thrown e s2
         | Normal _ \<Rightarrow>
             if xhr_readyState ?x = 4
             then Normal (pollAgain (randomInterval r (RECONNECT_INTERVAL s2) 100)
                            (emit ON_TIMEOUT OnTimeout s2))
             else Normal s2)"
    unfolding onreadystatechange_def t option.case using c by (simp only: if_True)
  also have "\<dots> =
     (let out = fst ?dec;
          d = state_of out;
          s2 = (on_open status s)
                 \<lparr>xhr := Some (x\<lparr>xhr_readyState := rs, xhr_status := status,
                                   xhr_responseText := text, cache := text\<rparr>),
                  lastEventId := self_lastEventId d,
                  global_env := global_scope d,
                  emitted := emitted (on_open status s) @ map (published JSON_parse) (frames d)\<rparr>
      in case out of
           Thrown e _ \<Rightarrow> Thrown e s2
         | Normal _ \<Rightarrow>
             if rs = 4
             then Normal (pollAgain (randomInterval r (RECONNECT_INTERVAL s) 100)
                            (emit ON_TIMEOUT OnTimeout s2))
             else Normal s2)"
    unfolding o Let_def f
    by (simp add: on_open_fields d publish_frames_eq split: outcome.splits)
  finally show ?thesis by (simp add: receive_def)
qed

lemma receive_done_200_fields:
  assumes "xhr s = Some x" "receive JSON_parse r 4 200 text s = Normal s'"
  shows "timeouts s' = timeouts s @ [randomInterval r (RECONNECT_INTERVAL s) 100]"
    and "RECONNECT_INTERVAL s' = RECONNECT_INTERVAL s"
    and "MIN_INTERVAL s' = MIN_INTERVAL s"
    and "MAX_INTERVAL s' = MAX_INTERVAL s"
  using assms(2) unfolding receive_success [OF assms(1), of 4 200, simplified]
  by (auto simp add: Let_def pollAgain_def emit_def on_open_fields split: outcome.splits)

lemma receive_success_bounds:
  assumes "xhr s = Some x" "rs = 3 \<or> (rs = 4 \<and> status = 200)"
  shows "MIN_INTERVAL (state_of (receive JSON_parse r rs status text s)) = MIN_INTERVAL s"
    and "MAX_INTERVAL (state_of (receive JSON_parse r rs status text s)) = MAX_INTERVAL s"
    and "RECONNECT_INTERVAL (state_of (receive JSON_parse r rs status text s)) = RECONNECT_INTERVAL s"
  unfolding receive_success [OF assms]
  by (simp_all add: Let_def pollAgain_def emit_def on_open_fields split: outcome.splits)

lemma parseInt_5000: "parseInt (str ''5000'') = Num 5000"
  by (simp add: parseInt_def str_def re_space_def radix_digit_def digit_value_def digits_value_def)

lemma decode_retry_undeclared:
  "decode origin (str ''retry: 5000\<newline>\<newline>'') [] lastId no_globals
   = (Thrown ReferenceError (fresh_decoder lastId no_globals), str ''retry: 5000\<newline>\<newline>'')"
  by (simp add: decoder_eval str_def no_globals_def)

lemma line_retry_5000:
  "process_line origin (str ''retry: 5000'') d = assign_retry (Num 5000) d"
proof -
  have t: "replace_reTrim (str ''retry: 5000'') = str ''retry: 5000''"
    by (simp add: replace_reTrim_def reTrim_class_def re_space_def str_def)
  have p: "prefix (str ''retry'') (replace_reTrim (str ''retry: 5000''))"
    unfolding t by (simp add: str_def)
  have a: "after_field (drop 5 (str ''retry: 5000'')) = str ''5000''"
    by (simp add: after_field_def re_space_def str_def)
  show ?thesis
    using process_line_retry [OF p, of origin d] by (simp add: t a parseInt_5000)
qed

lemma split_retry_5000:
  "split_nl (str ''retry: 5000\<newline>\<newline>'') = [str ''retry: 5000'', [], []]"
  by (simp add: str_def)

lemma decode_retry_declared:
  "decode origin (str ''retry: 5000\<newline>\<newline>'') [] lastId declared_globals
   = (Normal (fresh_decoder lastId \<lparr>global_retry = Some (Num 5000), global_interval = Some (Num 5000)\<rparr>),
      str ''retry: 5000\<newline>\<newline>'')"
  by (simp add: decode_def split_retry_5000 line_retry_5000 process_line_blank_idle)
     (simp add: assign_retry_def fresh_decoder_def declared_globals_def process_line_blank_idle)

lemma published_hello:
  "JSON_parse (str ''hello'') = None \<Longrightarrow>
   published JSON_parse (str ''message'', MessageEvent (str ''hello'') origin lastId)
   = (str ''message'',
      OnMessage \<lparr>msg_type = str ''message'', msg_data = JString (str ''hello''),
                 msg_lastEventId = lastId, msg_origin = origin\<rparr>)"
  by (simp add: published_def decodedData_def MessageEvent_def str_def)

lemma published_ping:
  "JSON_parse (str ''{\"n\":1}'') = Some v \<Longrightarrow>
   published JSON_parse (str ''ping'', MessageEvent (str ''{\"n\":1}'') origin lastId)
   = (str ''ping'',
      OnMessage \<lparr>msg_type = str ''message'', msg_data = v,
                 msg_lastEventId = lastId, msg_origin = origin\<rparr>)"
  by (simp add: published_def decodedData_def MessageEvent_def str_def)

lemma emitted_receive_progress:
  assumes "xhr s = Some x"
  shows "emitted (state_of (receive JSON_parse r 3 status text s))
         = emitted (on_open status s)
           @ map (published JSON_parse)
               (frames (state_of (fst (decode (origin_of s) text (cache x) (lastEventId s)
                                         (global_env s)))))"
  unfolding receive_success [OF assms, of 3 status, simplified]
  by (simp add: Let_def split: outcome.splits)

text \<open>
  Claim C6. Decoding the body \<^verbatim>\<open>data: hello\<close>, empty line, from the start records exactly
  one call of \<^verbatim>\<open>_emitMessage\<close>, with type \<^verbatim>\<open>message\<close> and data \<^verbatim>\<open>hello\<close>; the body
  \<^verbatim>\<open>event: ping\<close>, \<^verbatim>\<open>data: {"n":1}\<close>, empty line, exactly one with type \<^verbatim>\<open>ping\<close>. When
  such a body arrives as the first progress event of a request, the handler publishes,
  after the \<^verbatim>\<open>state\<close> and \<^verbatim>\<open>open\<close> events if the client was \<open>CONNECTING\<close>, exactly one event:
  under the name \<^verbatim>\<open>message\<close> with the string \<^verbatim>\<open>hello\<close> as data, given that \<^verbatim>\<open>JSON.parse\<close>
  rejects \<^verbatim>\<open>hello\<close>; under the name \<^verbatim>\<open>ping\<close> with the object that \<^verbatim>\<open>JSON.parse\<close> returns for
  \<^verbatim>\<open>{"n":1}\<close> as data. The \<^verbatim>\<open>type\<close> property inside the payload is \<^verbatim>\<open>message\<close> in both.
\<close>

theorem decode_scenarios:
  "frames (state_of (fst (decode origin (str ''data: hello\<newline>\<newline>'') [] lastId g)))
     = [(str ''message'', MessageEvent (str ''hello'') origin lastId)]
   \<and> frames (state_of (fst (decode origin
                               (str ''event: ping\<newline>data: {\"n\":1}\<newline>\<newline>'') [] lastId g)))
     = [(str ''ping'', MessageEvent (str ''{\"n\":1}'') origin lastId)]
   \<and> (JSON_parse (str ''hello'') = None \<and> xhr s = Some x \<and> cache x = [] \<longrightarrow>
        emitted (state_of (receive JSON_parse r 3 200 (str ''data: hello\<newline>\<newline>'') s))
        = emitted s
          @ (if readyState s = Some CONNECTING
             then [(ON_STATE, OnState OPEN (Some CONNECTING)), (ON_OPEN, OnOpen (url s))] else [])
          @ [(str ''message'',
              OnMessage \<lparr>msg_type = str ''message'', msg_data = JString (str ''hello''),
                         msg_lastEventId = lastEventId s, msg_origin = origin_of s\<rparr>)])
   \<and> (JSON_parse (str ''{\"n\":1}'') = Some (JObject [(str ''n'', JNumber 1)])
        \<and> xhr s = Some x \<and> cache x = [] \<longrightarrow>
        emitted (state_of (receive JSON_parse r 3 200
                             (str ''event: ping\<newline>data: {\"n\":1}\<newline>\<newline>'') s))
        = emitted s
          @ (if readyState s = Some CONNECTING
             then [(ON_STATE, OnState OPEN (Some CONNECTING)), (ON_OPEN, OnOpen (url s))] else [])
          @ [(str ''ping'',
              OnMessage \<lparr>msg_type = str ''message'',
                         msg_data = JObject [(str ''n'', JNumber 1)],
                         msg_lastEventId = lastEventId s, msg_origin = origin_of s\<rparr>)])"
proof (intro conjI impI)
  show "frames (state_of (fst (decode origin (str ''data: hello\<newline>\<newline>'') [] lastId g)))
     = [(str ''message'', MessageEvent (str ''hello'') origin lastId)]"
    by (simp add: decode_hello)
  show "frames (state_of (fst (decode origin
                               (str ''event: ping\<newline>data: {\"n\":1}\<newline>\<newline>'') [] lastId g)))
     = [(str ''ping'', MessageEvent (str ''{\"n\":1}'') origin lastId)]"
    by (simp add: decode_ping)
next
  assume h: "JSON_parse (str ''hello'') = None \<and> xhr s = Some x \<and> cache x = []"
  then have x: "xhr s = Some x" and c: "cache x = []" and p: "JSON_parse (str ''hello'') = None"
    by blast+
  show "emitted (state_of (receive JSON_parse r 3 200 (str ''data: hello\<newline>\<newline>'') s))
        = emitted s
          @ (if readyState s = Some CONNECTING
             then [(ON_STATE, OnState OPEN (Some CONNECTING)), (ON_OPEN, OnOpen (url s))] else [])
          @ [(str ''message'',
              OnMessage \<lparr>msg_type = str ''message'', msg_data = JString (str ''hello''),
                         msg_lastEventId = lastEventId s, msg_origin = origin_of s\<rparr>)]"
    by (simp add: emitted_receive_progress [OF x] c decode_hello published_hello [of JSON_parse, OF p]
        on_open_fields)
next
  assume h: "JSON_parse (str ''{\"n\":1}'') = Some (JObject [(str ''n'', JNumber 1)])
        \<and> xhr s = Some x \<and> cache x = []"
  then have x: "xhr s = Some x" and c: "cache x = []"
    and p: "JSON_parse (str ''{\"n\":1}'') = Some (JObject [(str ''n'', JNumber 1)])"
    by blast+
  show "emitted (state_of (receive JSON_parse r 3 200
                             (str ''event: ping\<newline>data: {\"n\":1}\<newline>\<newline>'') s))
        = emitted s
          @ (if readyState s = Some CONNECTING
             then [(ON_STATE, OnState OPEN (Some CONNECTING)), (ON_OPEN, OnOpen (url s))] else [])
          @ [(str ''ping'',
              OnMessage \<lparr>msg_type = str ''message'',
                         msg_data = JObject [(str ''n'', JNumber 1)],
                         msg_lastEventId = lastEventId s, msg_origin = origin_of s\<rparr>)]"
    by (simp add: emitted_receive_progress [OF x] c decode_ping published_ping [of JSON_parse, OF p]
        on_open_fields)
qed

text \<open>Witness for C6: the sample client receives each body as its first chunk.\<close>

theorem decode_scenarios_witness:
  "sample_parse (str ''hello'') = None
   \<and> sample_parse (str ''{\"n\":1}'') = Some (JObject [(str ''n'', JNumber 1)])
   \<and> emitted (state_of (receive sample_parse (1 / 2) 3 200 (str ''data: hello\<newline>\<newline>'')
                          sample_client))
     = [(ON_STATE, OnState CONNECTING None), (ON_STATE, OnState OPEN (Some CONNECTING)),
        (ON_OPEN, OnOpen (Some (str ''http://h/''))),
        (str ''message'',
         OnMessage \<lparr>msg_type = str ''message'', msg_data = JString (str ''hello''),
                    msg_lastEventId = None, msg_origin = str ''http://h/sse''\<rparr>)]
   \<and> emitted (state_of (receive sample_parse (1 / 2) 3 200
                          (str ''event: ping\<newline>data: {\"n\":1}\<newline>\<newline>'') sample_client))
     = [(ON_STATE, OnState CONNECTING None), (ON_STATE, OnState OPEN (Some CONNECTING)),
        (ON_OPEN, OnOpen (Some (str ''http://h/''))),
        (str ''ping'',
         OnMessage \<lparr>msg_type = str ''message'', msg_data = JObject [(str ''n'', JNumber 1)],
                    msg_lastEventId = None, msg_origin = str ''http://h/sse''\<rparr>)]"
proof -
  let ?x = "\<lparr>xhr_readyState = 1, xhr_status = 0, xhr_responseText = [], cache = []\<rparr>"
  have p: "sample_parse (str ''hello'') = None"
    "sample_parse (str ''{\"n\":1}'') = Some (JObject [(str ''n'', JNumber 1)])"
    by (simp_all add: sample_parse_def) (simp add: str_def)
  have s: "xhr sample_client = Some ?x" "cache ?x = []"
    "readyState sample_client = Some CONNECTING" "lastEventId sample_client = None"
    "emitted sample_client = [(ON_STATE, OnState CONNECTING None)]"
    "url sample_client = Some (str ''http://h/'')"
    by (simp_all add: sample_client_eq)
  have o: "origin_of sample_client = str ''http://h/sse''"
    by (simp add: origin_of_def sample_client_eq str_def)
  from p s o decode_scenarios [of "[]" None no_globals sample_parse sample_client ?x "1 / 2"]
  show ?thesis by simp
qed

text \<open>
  Claim C3 does not hold for the code. After a completion with status 200 the delay of the
  rescheduled request is \<^verbatim>\<open>randomInterval(self.RECONNECT_INTERVAL, 100)\<close>, whatever the
  response text was, and no handler changes \<^verbatim>\<open>RECONNECT_INTERVAL\<close>, \<^verbatim>\<open>MIN_INTERVAL\<close> or
  \<^verbatim>\<open>MAX_INTERVAL\<close>. For the body \<^verbatim>\<open>retry: 5000\<close>, empty line: where the global scope holds
  \<^verbatim>\<open>retry\<close> and \<^verbatim>\<open>interval\<close>, the value 5000 is stored in the global \<^verbatim>\<open>interval\<close>, which
  nothing reads, and the delay is drawn between 100 and 1000; where it does not, the
  assignment throws a \<^verbatim>\<open>ReferenceError\<close>, the handler ends there, and neither a \<^verbatim>\<open>timeout\<close>
  event nor a new request follows.
\<close>

theorem retry_field_not_used:
  "(xhr s = Some x \<and> receive JSON_parse r 4 200 text s = Normal s' \<longrightarrow>
      timeouts s' = timeouts s @ [randomInterval r (RECONNECT_INTERVAL s) 100]
      \<and> RECONNECT_INTERVAL s' = RECONNECT_INTERVAL s
      \<and> MIN_INTERVAL s' = MIN_INTERVAL s \<and> MAX_INTERVAL s' = MAX_INTERVAL s)
   \<and> (xhr s = Some x \<and> (rs = 3 \<or> (rs = 4 \<and> status = 200)) \<longrightarrow>
        RECONNECT_INTERVAL (state_of (receive JSON_parse r rs status text s)) = RECONNECT_INTERVAL s
        \<and> MIN_INTERVAL (state_of (receive JSON_parse r rs status text s)) = MIN_INTERVAL s
        \<and> MAX_INTERVAL (state_of (receive JSON_parse r rs status text s)) = MAX_INTERVAL s)
   \<and> (let s1 = state_of (receive JSON_parse r 4 200 (str ''retry: 5000\<newline>\<newline>'')
                            (sample_client\<lparr>global_env := declared_globals\<rparr>))
       in global_interval (global_env s1) = Some (Num 5000)
          \<and> RECONNECT_INTERVAL s1 = 1000
          \<and> timeouts s1 = [randomInterval r 1000 100])
   \<and> (let out = receive JSON_parse r 4 200 (str ''retry: 5000\<newline>\<newline>'') sample_client
       in out = Thrown ReferenceError (state_of out)
          \<and> timeouts (state_of out) = [] \<and> pollTimer (state_of out) = None
          \<and> filter (\<lambda>e. fst e = ON_TIMEOUT) (emitted (state_of out)) = [])"
proof (intro conjI impI)
  assume "xhr s = Some x \<and> receive JSON_parse r 4 200 text s = Normal s'"
  then have x: "xhr s = Some x" and n: "receive JSON_parse r 4 200 text s = Normal s'"
    by blast+
  from receive_done_200_fields [OF x n]
  show "timeouts s' = timeouts s @ [randomInterval r (RECONNECT_INTERVAL s) 100]"
    "RECONNECT_INTERVAL s' = RECONNECT_INTERVAL s"
    "MIN_INTERVAL s' = MIN_INTERVAL s" "MAX_INTERVAL s' = MAX_INTERVAL s"
    by simp_all
next
  assume "xhr s = Some x \<and> (rs = 3 \<or> (rs = 4 \<and> status = 200))"
  then have x: "xhr s = Some x" and c: "rs = 3 \<or> (rs = 4 \<and> status = 200)"
    by blast+
  from receive_success_bounds [OF x c]
  show "RECONNECT_INTERVAL (state_of (receive JSON_parse r rs status text s)) = RECONNECT_INTERVAL s"
    "MIN_INTERVAL (state_of (receive JSON_parse r rs status text s)) = MIN_INTERVAL s"
    "MAX_INTERVAL (state_of (receive JSON_parse r rs status text s)) = MAX_INTERVAL s"
    by simp_all
next
  let ?s = "sample_client\<lparr>global_env := declared_globals\<rparr>"
  have x: "xhr ?s = Some \<lparr>xhr_readyState = 1, xhr_status = 0, xhr_responseText = [], cache = []\<rparr>"
    by (simp add: sample_client_eq)
  show "let s1 = state_of (receive JSON_parse r 4 200 (str ''retry: 5000\<newline>\<newline>'') ?s)
       in global_interval (global_env s1) = Some (Num 5000)
          \<and> RECONNECT_INTERVAL s1 = 1000
          \<and> timeouts s1 = [randomInterval r 1000 100]"
    unfolding receive_success [OF x, of 4 200, simplified]
    by (simp add: Let_def decode_retry_declared pollAgain_def emit_def on_open_fields
        fresh_decoder_def)
       (simp add: sample_client_eq)
next
  have x: "xhr sample_client
           = Some \<lparr>xhr_readyState = 1, xhr_status = 0, xhr_responseText = [], cache = []\<rparr>"
    by (simp add: sample_client_eq)
  have g: "global_env sample_client = no_globals" by (simp add: sample_client_eq)
  show "let out = receive JSON_parse r 4 200 (str ''retry: 5000\<newline>\<newline>'') sample_client
       in out = Thrown ReferenceError (state_of out)
          \<and> timeouts (state_of out) = [] \<and> pollTimer (state_of out) = None
          \<and> filter (\<lambda>e. fst e = ON_TIMEOUT) (emitted (state_of out)) = []"
    unfolding receive_success [OF x, of 4 200, simplified]
    by (simp add: Let_def g decode_retry_undeclared on_open_fields fresh_decoder_def)
       (simp add: sample_client_eq event_names)
qed

text \<open>Witness for the evaluation of C3, with \<open>r = 1/2\<close>: the delay is 550.\<close>

theorem retry_field_not_used_witness:
  "receive sample_parse (1 / 2) 4 200 (str ''retry: 5000\<newline>\<newline>'')
     (sample_client\<lparr>global_env := declared_globals\<rparr>)
   = Normal (state_of (receive sample_parse (1 / 2) 4 200 (str ''retry: 5000\<newline>\<newline>'')
                         (sample_client\<lparr>global_env := declared_globals\<rparr>)))
   \<and> global_interval (global_env
        (state_of (receive sample_parse (1 / 2) 4 200 (str ''retry: 5000\<newline>\<newline>'')
                     (sample_client\<lparr>global_env := declared_globals\<rparr>))))
     = Some (Num 5000)
   \<and> timeouts (state_of (receive sample_parse (1 / 2) 4 200 (str ''retry: 5000\<newline>\<newline>'')
                           (sample_client\<lparr>global_env := declared_globals\<rparr>)))
     = [550]
   \<and> receive sample_parse (1 / 2) 4 200 (str ''retry: 5000\<newline>\<newline>'') sample_client
     = Thrown ReferenceError
         (state_of (receive sample_parse (1 / 2) 4 200 (str ''retry: 5000\<newline>\<newline>'')
                      sample_client))
   \<and> timeouts (state_of (receive sample_parse (1 / 2) 4 200 (str ''retry: 5000\<newline>\<newline>'')
                           sample_client))
     = []"
proof -
  let ?s = "sample_client\<lparr>global_env := declared_globals\<rparr>"
  let ?x = "\<lparr>xhr_readyState = 1, xhr_status = 0, xhr_responseText = [], cache = []\<rparr>"
  have x: "xhr ?s = Some ?x" "timeouts ?s = []" "RECONNECT_INTERVAL ?s = 1000"
    by (simp_all add: sample_client_eq)
  have n: "receive sample_parse (1 / 2) 4 200 (str ''retry: 5000\<newline>\<newline>'') ?s
           = Normal (state_of (receive sample_parse (1 / 2) 4 200
                                 (str ''retry: 5000\<newline>\<newline>'') ?s))"
    unfolding receive_success [OF x(1), of 4 200, simplified]
    by (simp add: Let_def decode_retry_declared)
  have i: "randomInterval (1 / 2) 1000 100 = 550" by code_simp
  from x n i
    retry_field_not_used [where s = ?s and x = ?x and JSON_parse = sample_parse and r = "1 / 2"
      and ?text = "str ''retry: 5000\<newline>\<newline>''" and rs = 4 and status = 200
      and s' = "state_of (receive sample_parse (1 / 2) 4 200
                           (str ''retry: 5000\<newline>\<newline>'') ?s)"]
  show ?thesis by (simp add: Let_def)
qed

section \<open>\<^verbatim>\<open>open()\<close> and the states of the client\<close>






end
